theory Spec2Isabelle
  imports Main
begin

section \<open>Values, errors and tables\<close>

text \<open>
  The scraper (\<^verbatim>\<open>Gas-EV-Prices.py\<close>) works on pandas DataFrames whose cells are
  strings, floats or missing values. A float is kept symbolically: \<open>Num s\<close> stands for the
  float that Python's \<^verbatim>\<open>float(s)\<close> returns (its rounding to binary64 is not
  modelled). \<open>Null\<close> stands for a missing value (\<^verbatim>\<open>None\<close> or \<^verbatim>\<open>NaN\<close>).
  A string is a list of characters with code points below 256 (Latin-1); text with
  other characters is outside the model.
\<close>

datatype cell = Str string | Num string | Null

text \<open>
  The exceptions that can travel through the script. \<open>HTTPError\<close> carries the status
  code of the response it was raised for. \<open>HTTPError\<close>, \<open>ConnectionError\<close>, \<open>Timeout\<close> and
  \<open>JSONDecodeError\<close> are the subclasses of \<^verbatim>\<open>requests.exceptions.RequestException\<close>
  that occur; all of them are subclasses of \<^verbatim>\<open>Exception\<close>.
\<close>

datatype error =
    HTTPError nat
  | ConnectionError
  | Timeout
  | JSONDecodeError
  | ValueError string
  | KeyError string
  | AttributeError string
  | TypeError string
  | OtherError string

type_synonym 'a result = "error + 'a"

text \<open>
  A DataFrame: the column labels and the rows, each row holding one cell per column.
  A row that is shorter than the label list reads as missing cells.
\<close>

record dataframe =
  columns :: "string list"
  rows :: "cell list list"

text \<open>
  The result of \<^verbatim>\<open>to_dict(orient='records')\<close>: per row a dictionary from column
  labels to cells, kept as the list of its items in insertion order.
\<close>

type_synonym records = "(string \<times> cell) list list"

section \<open>Python strings\<close>

text \<open>
  The characters below 256 for which \<^verbatim>\<open>str.isspace()\<close> holds: tab to carriage
  return, the four separators \<^verbatim>\<open>0x1C\<close> to \<^verbatim>\<open>0x1F\<close>, the blank, the next-line
  character \<^verbatim>\<open>0x85\<close> and the no-break space \<^verbatim>\<open>0xA0\<close>.
\<close>

definition is_space :: "char \<Rightarrow> bool" where
  "is_space c = (c \<in> set [CHR 0x09, CHR 0x0A, CHR 0x0B, CHR 0x0C, CHR 0x0D,
                           CHR 0x1C, CHR 0x1D, CHR 0x1E, CHR 0x1F, CHR 0x20,
                           CHR 0x85, CHR 0xA0])"

text \<open>\<^verbatim>\<open>str.strip()\<close>: whitespace is removed at both ends.\<close>

definition strip :: "string \<Rightarrow> string" where
  "strip s = rev (dropWhile is_space (rev (dropWhile is_space s)))"

text \<open>\<^verbatim>\<open>s.replace('$', '')\<close>: every occurrence of the dollar sign is removed.\<close>

definition remove_dollar :: "string \<Rightarrow> string" where
  "remove_dollar s = filter (\<lambda>c. c \<noteq> CHR ''$'') s"

subsection \<open>The strings \<^verbatim>\<open>float()\<close> accepts\<close>

text \<open>
  \<^verbatim>\<open>float(str)\<close> removes whitespace at both ends by a rule of its own: every
  whitespace character above 127 is first turned into a blank, and then the blanks of C
  (\<^verbatim>\<open>0x09\<close> to \<^verbatim>\<open>0x0D\<close> and \<^verbatim>\<open>0x20\<close>) are dropped; the separators
  \<^verbatim>\<open>0x1C\<close> to \<^verbatim>\<open>0x1F\<close>, which \<^verbatim>\<open>str.strip()\<close> removes, are not. What is
  left must follow the grammar of the Python language reference:
  \<^verbatim>\<open>
  floatvalue  ::= [sign] (floatnumber | infinity | nan)
  floatnumber ::= number [exponent]
  number      ::= [digitpart] "." digitpart | digitpart ["."]
  exponent    ::= ("e" | "E") [sign] digitpart
  digitpart   ::= digit (["_"] digit)*
  \<close>
  with \<^verbatim>\<open>inf\<close>, \<^verbatim>\<open>infinity\<close> and \<^verbatim>\<open>nan\<close> in any letter case.
\<close>

definition is_float_space :: "char \<Rightarrow> bool" where
  "is_float_space c = (c \<in> set [CHR 0x09, CHR 0x0A, CHR 0x0B, CHR 0x0C, CHR 0x0D, CHR 0x20,
                                 CHR 0x85, CHR 0xA0])"

definition float_strip :: "string \<Rightarrow> string" where
  "float_strip s = rev (dropWhile is_float_space (rev (dropWhile is_float_space s)))"

definition is_digit :: "char \<Rightarrow> bool" where
  "is_digit c = (c \<in> set ''0123456789'')"

fun digitpart :: "string \<Rightarrow> bool" where
  "digitpart [] = False"
| "digitpart [c] = is_digit c"
| "digitpart (c # d # cs) =
     (is_digit c \<and> (if d = CHR ''_'' then digitpart cs else digitpart (d # cs)))"

definition number :: "string \<Rightarrow> bool" where
  "number s =
     (let a = takeWhile (\<lambda>c. c \<noteq> CHR ''.'') s; b = dropWhile (\<lambda>c. c \<noteq> CHR ''.'') s
      in case b of
           [] \<Rightarrow> digitpart a
         | _ # f \<Rightarrow> (f = [] \<and> digitpart a) \<or> (digitpart f \<and> (a = [] \<or> digitpart a)))"

definition drop_sign :: "string \<Rightarrow> string" where
  "drop_sign s = (case s of [] \<Rightarrow> [] | c # t \<Rightarrow> if c = CHR ''+'' \<or> c = CHR ''-'' then t else s)"

definition is_e :: "char \<Rightarrow> bool" where
  "is_e c = (c = CHR ''e'' \<or> c = CHR ''E'')"

definition floatnumber :: "string \<Rightarrow> bool" where
  "floatnumber s =
     (let m = takeWhile (\<lambda>c. \<not> is_e c) s; x = dropWhile (\<lambda>c. \<not> is_e c) s
      in case x of
           [] \<Rightarrow> number m
         | _ # ex \<Rightarrow> number m \<and> digitpart (drop_sign ex))"

definition lower :: "char \<Rightarrow> char" where
  "lower c = (case map_of (zip ''ABCDEFGHIJKLMNOPQRSTUVWXYZ'' ''abcdefghijklmnopqrstuvwxyz'') c of
                None \<Rightarrow> c | Some l \<Rightarrow> l)"

definition is_py_float :: "string \<Rightarrow> bool" where
  "is_py_float s =
     (let t = drop_sign (float_strip s)
      in map lower t \<in> set [''inf'', ''infinity'', ''nan''] \<or> floatnumber t)"

section \<open>DataFrame operations\<close>

text \<open>
  \<^verbatim>\<open>pd.DataFrame(data, columns=cols)\<close> on a list of lists of strings: no data gives
  an empty frame with the given labels; otherwise the rows are padded with \<^verbatim>\<open>None\<close>
  to the width of the longest one, and the number of labels must equal that width
  (\<^verbatim>\<open>ValueError: n columns passed, passed data had m columns\<close>).
\<close>

definition widest :: "'a list list \<Rightarrow> nat" where
  "widest data = fold max (map length data) 0"

definition DataFrame :: "string list list \<Rightarrow> string list \<Rightarrow> dataframe result" where
  "DataFrame data cols =
     (if data = [] then Inr \<lparr>columns = cols, rows = []\<rparr>
      else let k = widest data
           in if length cols \<noteq> k then Inl (ValueError ''columns passed do not match the data'')
              else Inr \<lparr>columns = cols,
                        rows = map (\<lambda>r. map Str r @ replicate (k - length r) Null) data\<rparr>)"

definition cell_at :: "cell list \<Rightarrow> nat \<Rightarrow> cell" where
  "cell_at r j = (if j < length r then r ! j else Null)"

definition column :: "dataframe \<Rightarrow> nat \<Rightarrow> cell list" where
  "column df j = map (\<lambda>r. cell_at r j) (rows df)"

text \<open>
  \<^verbatim>\<open>df[name]\<close>: a Series when exactly one column has the label (with its position),
  a DataFrame when several have it, \<^verbatim>\<open>KeyError\<close> when none has.
\<close>

datatype selection = Series nat "cell list" | Frame

definition positions :: "string list \<Rightarrow> string \<Rightarrow> nat list" where
  "positions cols name = filter (\<lambda>j. cols ! j = name) [0..<length cols]"

definition getitem :: "dataframe \<Rightarrow> string \<Rightarrow> selection result" where
  "getitem df name =
     (case positions (columns df) name of
        [] \<Rightarrow> Inl (KeyError name)
      | [j] \<Rightarrow> Inr (Series j (column df j))
      | _ \<Rightarrow> Inr Frame)"

text \<open>\<^verbatim>\<open>df[name] = values\<close> for the column at position \<open>j\<close>.\<close>

definition setitem :: "dataframe \<Rightarrow> nat \<Rightarrow> cell list \<Rightarrow> dataframe" where
  "setitem df j vs = df\<lparr>rows := map (\<lambda>(r, v). r[j := v]) (zip (rows df) vs)\<rparr>"

text \<open>
  The \<^verbatim>\<open>.str\<close> accessor. A DataFrame has none (\<^verbatim>\<open>AttributeError\<close>). A Series has
  one when its values, the missing ones apart, are not all numbers: pandas accepts the
  inferred types string, empty and mixed. The model keeps no dtype: a column without
  any value other than missing ones is read as a column of objects, as the columns are
  on which the script uses \<^verbatim>\<open>.str\<close> (they come from \<^verbatim>\<open>astype(str)\<close> or from the
  texts of the fallback parser); a \<^verbatim>\<open>float64\<close> column of \<^verbatim>\<open>NaN\<close> only, for which pandas
  refuses \<^verbatim>\<open>.str\<close>, has no counterpart in the model.
\<close>

fun is_Str :: "cell \<Rightarrow> bool" where
  "is_Str (Str s) = True"
| "is_Str c = False"

definition str_accessor :: "selection \<Rightarrow> (nat \<times> cell list) result" where
  "str_accessor sel =
     (case sel of
        Frame \<Rightarrow> Inl (AttributeError ''DataFrame object has no attribute str'')
      | Series j cs \<Rightarrow>
          if list_ex is_Str cs \<or> list_all (\<lambda>c. c = Null) cs then Inr (j, cs)
          else Inl (AttributeError ''Can only use .str accessor with string values''))"

text \<open>The string methods work on the strings of a Series and give a missing value elsewhere.\<close>

fun str_strip :: "cell \<Rightarrow> cell" where
  "str_strip (Str s) = Str (strip s)"
| "str_strip c = Null"

fun str_replace_dollar :: "cell \<Rightarrow> cell" where
  "str_replace_dollar (Str s) = Str (remove_dollar s)"
| "str_replace_dollar c = Null"

text \<open>
  \<^verbatim>\<open>astype(float)\<close> on one value: a string must be a float literal
  (\<^verbatim>\<open>ValueError: could not convert string to float\<close>), a missing value stays missing.
\<close>

fun to_float :: "cell \<Rightarrow> cell result" where
  "to_float (Str s) = (if is_py_float s then Inr (Num s) else Inl (ValueError s))"
| "to_float (Num x) = Inr (Num x)"
| "to_float Null = Inr Null"

text \<open>On a Series the conversion raises at the first value that does not convert.\<close>

fun astype_float :: "cell list \<Rightarrow> cell list result" where
  "astype_float [] = Inr []"
| "astype_float (c # cs) =
     (case to_float c of
        Inl e \<Rightarrow> Inl e
      | Inr v \<Rightarrow> (case astype_float cs of Inl e \<Rightarrow> Inl e | Inr vs \<Rightarrow> Inr (v # vs)))"

section \<open>Parsed HTML\<close>

text \<open>
  What \<^verbatim>\<open>BeautifulSoup(html_text, 'html.parser')\<close> builds: text nodes, and tags with a
  name and children. \<^verbatim>\<open>find_all\<close> searches all descendants in document order;
  \<^verbatim>\<open>find\<close> (here \<open>find_tag\<close>) gives the first of them or \<^verbatim>\<open>None\<close>.
\<close>

datatype node = Text string | Elem string "node list"

fun descendants :: "node \<Rightarrow> node list" where
  "descendants (Text s) = []"
| "descendants (Elem t cs) = concat (map (\<lambda>c. c # descendants c) cs)"

fun has_name :: "string list \<Rightarrow> node \<Rightarrow> bool" where
  "has_name names (Text s) = False"
| "has_name names (Elem t cs) = (t \<in> set names)"

definition find_all :: "node \<Rightarrow> string list \<Rightarrow> node list" where
  "find_all n names = filter (has_name names) (descendants n)"

definition find_tag :: "node \<Rightarrow> string \<Rightarrow> node option" where
  "find_tag n name = (case find_all n [name] of [] \<Rightarrow> None | t # _ \<Rightarrow> Some t)"

fun get_text :: "node \<Rightarrow> string" where
  "get_text (Text s) = s"
| "get_text (Elem t cs) = concat (map get_text cs)"

section \<open>The outside world and the trace of effects\<close>

text \<open>
  Everything the script gets from outside is a field of \<open>world\<close>: the answers of the two
  HTTP calls, the parsers of pandas and BeautifulSoup, the clock, the environment
  variable, and whether the installed pandas is version 3 or later. What the script does to the outside is recorded, in order, as a list of
  events. An f-string is kept as the list of its parts.
\<close>

record response =
  status_code :: nat
  response_text :: string

datatype get_outcome = NoResponse | Response response

record gist_json =
  html_url :: "string option"
  raw_url :: "string option"

datatype patch_outcome =
    PatchTimeout
  | PatchNoResponse
  | PatchResponse nat string "gist_json option"

record full_data =
  scrape_date :: string
  data :: records

record patch_request =
  api_url :: string
  headers :: "(string \<times> string) list"
  description :: string
  content :: full_data
  timeout :: nat

datatype out =
    Lit string
  | Number nat
  | Exc error
  | Labels "string list"
  | Repr dataframe
  | ToString dataframe

datatype event =
    Print "out list"
  | Traceback error
  | Sleep nat
  | Get string "(string \<times> string) list"
  | Patch patch_request

record world =
  requests_get :: "string \<Rightarrow> get_outcome"
  requests_patch :: "patch_request \<Rightarrow> patch_outcome"
  read_html :: "string \<Rightarrow> dataframe list result"
  BeautifulSoup :: "string \<Rightarrow> node"
  numeric_text :: "string \<Rightarrow> bool"
  float_str :: "string \<Rightarrow> string"
  strftime_now :: string
  GITHUB_TOKEN :: "string option"
  pandas3 :: bool

definition nl :: char where
  "nl = CHR 0x0A"

definition sq :: char where
  "sq = CHR 0x27"

section \<open>Configuration\<close>

definition GIST_ID :: string where
  "GIST_ID = ''e003b91ea818923bcc97dc33b711a0e1''"

definition gas_prices_url :: string where
  "gas_prices_url = ''https://gasprices.aaa.com/todays-state-averages/''"

definition ev_prices_url :: string where
  "ev_prices_url = ''https://gasprices.aaa.com/ev-charging-prices/''"

definition HEADERS :: "(string \<times> string) list" where
  "HEADERS =
     [(''User-Agent'', ''Mozilla/5.0 (Windows NT 10.0; Win64; x64) AppleWebKit/537.36 (KHTML, like Gecko) Chrome/120.0.0.0 Safari/537.36''),
      (''Accept-Language'', ''en-US,en;q=0.9'')]"

section \<open>Fetching\<close>

text \<open>
  \<^verbatim>\<open>Response.raise_for_status()\<close> of the requests library raises \<^verbatim>\<open>HTTPError\<close> for the
  client errors 400 to 499 and the server errors 500 to 599, and for no other status.
\<close>

definition raise_for_status :: "response \<Rightarrow> unit result" where
  "raise_for_status r =
     (if 400 \<le> status_code r \<and> status_code r < 500 then Inl (HTTPError (status_code r))
      else if 500 \<le> status_code r \<and> status_code r < 600 then Inl (HTTPError (status_code r))
      else Inr ())"

definition make_respectful_request :: "world \<Rightarrow> string \<Rightarrow> response result \<times> event list" where
  "make_respectful_request w url =
     (let ev = [Print [Lit ''Requesting: '', Lit url], Get url HEADERS]
      in case requests_get w url of
           NoResponse \<Rightarrow> (Inl ConnectionError, ev)
         | Response r \<Rightarrow>
             (case raise_for_status r of
                Inl e \<Rightarrow> (Inl e, ev)
              | Inr _ \<Rightarrow> (Inr r, ev @ [Print [Lit ''  Status: '', Number (status_code r)]])))"

section \<open>Table extraction\<close>

subsection \<open>The fallback parser\<close>

text \<open>
  The loop \<^verbatim>\<open>for col in df.columns\<close> of \<^verbatim>\<open>extract_table_manually\<close>: every column
  whose label is not \<^verbatim>\<open>'State'\<close> is replaced by
  \<^verbatim>\<open>df[col].str.replace('$', '', regex=False).astype(float)\<close>.
\<close>

fun clean_numeric_columns :: "string list \<Rightarrow> dataframe \<Rightarrow> dataframe result" where
  "clean_numeric_columns [] df = Inr df"
| "clean_numeric_columns (col # cols) df =
     (if col \<noteq> ''State'' then
        (case getitem df col of
           Inl e \<Rightarrow> Inl e
         | Inr sel \<Rightarrow>
             (case str_accessor sel of
                Inl e \<Rightarrow> Inl e
              | Inr (j, cs) \<Rightarrow>
                  (case astype_float (map str_replace_dollar cs) of
                     Inl e \<Rightarrow> Inl e
                   | Inr vs \<Rightarrow> clean_numeric_columns cols (setitem df j vs))))
      else clean_numeric_columns cols df)"

text \<open>The texts of the header cells: every \<^verbatim>\<open>th\<close> below the table.\<close>

definition table_headers :: "node \<Rightarrow> string list" where
  "table_headers table = map (\<lambda>th. strip (get_text th)) (find_all table [''th''])"

text \<open>
  The texts of the data rows: every \<^verbatim>\<open>tr\<close> below the table but the first, with its
  \<^verbatim>\<open>td\<close> and \<^verbatim>\<open>th\<close> cells; a row without cells is skipped.
\<close>

definition table_rows :: "node \<Rightarrow> string list list" where
  "table_rows table =
     map (map (\<lambda>cell. strip (get_text cell)))
       (filter (\<lambda>cells. cells \<noteq> [])
          (map (\<lambda>tr. find_all tr [''td'', ''th'']) (tl (find_all table [''tr'']))))"

definition extract_table_manually :: "world \<Rightarrow> string \<Rightarrow> dataframe result \<times> event list" where
  "extract_table_manually w html_text =
     (let ev = [Print [Lit ''Using manual table extraction...'']];
          soup = BeautifulSoup w html_text
      in case find_tag soup ''table'' of
           None \<Rightarrow> (Inl (ValueError ''No table found in HTML''), ev)
         | Some table \<Rightarrow>
             (case DataFrame (table_rows table) (table_headers table) of
                Inl e \<Rightarrow> (Inl e, ev)
              | Inr df \<Rightarrow> (clean_numeric_columns (columns df) df, ev)))"

subsection \<open>The primary path\<close>

text \<open>
  \<^verbatim>\<open>astype(str)\<close> on one value: a float becomes its text (given by the world). A
  missing value becomes the text \<^verbatim>\<open>nan\<close> with pandas before version 3 and stays
  missing from version 3 on.
\<close>

fun astype_str :: "world \<Rightarrow> cell \<Rightarrow> cell" where
  "astype_str w (Str s) = Str s"
| "astype_str w (Num x) = Str (float_str w x)"
| "astype_str w Null = (if pandas3 w then Null else Str ''nan'')"

fun map_selection :: "(cell \<Rightarrow> cell) \<Rightarrow> selection \<Rightarrow> selection" where
  "map_selection f (Series j cs) = Series j (map f cs)"
| "map_selection f Frame = Frame"

text \<open>The statement \<^verbatim>\<open>df['State'] = df['State'].astype(str).str.strip()\<close>.\<close>

definition clean_state :: "world \<Rightarrow> dataframe \<Rightarrow> dataframe result" where
  "clean_state w df =
     (case getitem df ''State'' of
        Inl e \<Rightarrow> Inl e
      | Inr sel \<Rightarrow>
          (case str_accessor (map_selection (astype_str w) sel) of
             Inl e \<Rightarrow> Inl e
           | Inr (j, cs) \<Rightarrow> Inr (setitem df j (map str_strip cs))))"

text \<open>\<^verbatim>\<open>df.rename(columns={old: new})\<close> renames every column labelled \<open>old\<close>.\<close>

definition rename :: "dataframe \<Rightarrow> string \<Rightarrow> string \<Rightarrow> dataframe" where
  "rename df old new = df\<lparr>columns := map (\<lambda>c. if c = old then new else c) (columns df)\<rparr>"

text \<open>
  The body of the \<^verbatim>\<open>try\<close> block of \<^verbatim>\<open>extract_table_data\<close>. The labels that
  \<^verbatim>\<open>read_html\<close> gives are taken as their \<^verbatim>\<open>str(col)\<close>. (From pandas 3 on
  \<^verbatim>\<open>read_html\<close> takes a text for the name of a file and raises; that is an answer
  \<open>Inl\<close> of the world.)
\<close>

definition extract_table_data_try :: "world \<Rightarrow> string \<Rightarrow> dataframe result" where
  "extract_table_data_try w html =
     (case read_html w html of
        Inl e \<Rightarrow> Inl e
      | Inr tables \<Rightarrow>
          (case tables of
             [] \<Rightarrow> Inl (ValueError ''No tables found in the HTML.'')
           | df0 # _ \<Rightarrow>
               (let df = df0\<lparr>columns := map strip (columns df0)\<rparr>
                in if ''State'' \<in> set (columns df) then clean_state w df
                   else if length (columns df) > 0
                     then clean_state w (rename df (hd (columns df)) ''State'')
                   else Inr df)))"

definition extract_table_data :: "world \<Rightarrow> string \<Rightarrow> dataframe result \<times> event list" where
  "extract_table_data w html =
     (case extract_table_data_try w html of
        Inr df \<Rightarrow> (Inr df, [])
      | Inl e \<Rightarrow>
          (let (r, ev) = extract_table_manually w html
           in (r, Print [Lit ''Error reading table with pandas: '', Exc e] # ev)))"

section \<open>Scraping the two pages\<close>

definition head :: "nat \<Rightarrow> dataframe \<Rightarrow> dataframe" where
  "head n df = df\<lparr>rows := take n (rows df)\<rparr>"

definition found_table :: "dataframe \<Rightarrow> event list" where
  "found_table df =
     [Print [Lit ''Found table with columns: '', Labels (columns df)],
      Print [Lit ''First few rows:'', Lit [nl], Repr (head 3 df)]]"

definition scrape_aaa_gas_prices :: "world \<Rightarrow> string \<Rightarrow> dataframe result \<times> event list" where
  "scrape_aaa_gas_prices w url =
     (let ev0 = [Print [Lit (nl # ''--- Scraping Gas Prices ---'')]]
      in case make_respectful_request w url of
           (Inl e, ev1) \<Rightarrow> (Inl e, ev0 @ ev1)
         | (Inr r, ev1) \<Rightarrow>
             (case extract_table_data w (response_text r) of
                (Inl e, ev2) \<Rightarrow> (Inl e, ev0 @ ev1 @ ev2)
              | (Inr df, ev2) \<Rightarrow> (Inr df, ev0 @ ev1 @ ev2 @ found_table df)))"

text \<open>
  \<^verbatim>\<open>pd.to_numeric(series, errors='coerce')\<close>: a text that pandas does not read as a
  number (the world says which) becomes a missing value. Given a DataFrame it raises
  \<^verbatim>\<open>TypeError\<close>.
\<close>

fun coerce :: "world \<Rightarrow> cell \<Rightarrow> cell" where
  "coerce w (Str s) = (if numeric_text w s then Num s else Null)"
| "coerce w c = c"

definition clean_cost :: "world \<Rightarrow> dataframe \<Rightarrow> dataframe result" where
  "clean_cost w df =
     (case getitem df ''Cost/kWh'' of
        Inl e \<Rightarrow> Inl e
      | Inr Frame \<Rightarrow> Inl (TypeError ''arg must be a list, tuple, 1-d array, or Series'')
      | Inr (Series j cs) \<Rightarrow> Inr (setitem df j (map (coerce w) cs)))"

definition crawl_delay :: "event list" where
  "crawl_delay =
     concat (map (\<lambda>i. [Print [Lit ''  Waiting... '', Number i, Lit '' seconds remaining.''], Sleep 1])
               (rev [1..<11]))"

definition scrape_aaa_ev_prices :: "world \<Rightarrow> string \<Rightarrow> dataframe result \<times> event list" where
  "scrape_aaa_ev_prices w url =
     (let ev0 = [Print [Lit (nl # ''--- Scraping EV Prices ---'')],
                 Print [Lit (''Respecting '' @ [sq] @ ''Crawl-delay: 10'' @ [sq] @ '' from robots.txt...'')]]
                @ crawl_delay
                @ [Print [Lit ''  Proceeding with request.               '']]
      in case make_respectful_request w url of
           (Inl e, ev1) \<Rightarrow> (Inl e, ev0 @ ev1)
         | (Inr r, ev1) \<Rightarrow>
             (case extract_table_data w (response_text r) of
                (Inl e, ev2) \<Rightarrow> (Inl e, ev0 @ ev1 @ ev2)
              | (Inr df, ev2) \<Rightarrow>
                  (case (if ''Cost/kWh'' \<in> set (columns df) then clean_cost w df else Inr df) of
                     Inl e \<Rightarrow> (Inl e, ev0 @ ev1 @ ev2)
                   | Inr df' \<Rightarrow> (Inr df', ev0 @ ev1 @ ev2 @ found_table df'))))"

section \<open>Merging\<close>

text \<open>
  \<^verbatim>\<open>pd.merge(left, right, on=key, how='left')\<close>. The key must label exactly one column
  on each side. A label other than the key that both sides carry gets the suffix
  \<^verbatim>\<open>_x\<close> on the left and \<^verbatim>\<open>_y\<close> on the right; a suffix that creates a duplicate
  label on one side is refused (\<^verbatim>\<open>MergeError\<close>, a \<^verbatim>\<open>ValueError\<close>). Every left row
  is joined, in order, with each right row of equal key (missing keys match each other),
  in the right table's order, the right key column dropped; a left row with no partner
  is kept once, with missing values in the right columns. (For a left table without rows
  pandas keeps the key column of the right side instead; the order of the labels in that
  case is not modelled.)
\<close>

definition remove_nth :: "nat \<Rightarrow> 'a list \<Rightarrow> 'a list" where
  "remove_nth j xs = take j xs @ drop (Suc j) xs"

definition suffix_duplicates :: "string list \<Rightarrow> string list \<Rightarrow> string list" where
  "suffix_duplicates new old =
     map (\<lambda>p. new ! p)
       (filter (\<lambda>p. new ! p \<in> set (take p new) \<and> old ! p \<notin> set (take p old)) [0..<length new])"

definition join_row :: "cell list list \<Rightarrow> nat \<Rightarrow> nat \<Rightarrow> nat \<Rightarrow> cell list \<Rightarrow> cell list list" where
  "join_row rrows i j width lrow =
     (let partners = filter (\<lambda>rrow. cell_at rrow j = cell_at lrow i) rrows
      in if partners = [] then [lrow @ replicate width Null]
         else map (\<lambda>rrow. lrow @ remove_nth j rrow) partners)"

definition pd_merge :: "dataframe \<Rightarrow> dataframe \<Rightarrow> string \<Rightarrow> dataframe result" where
  "pd_merge left right key =
     (case (positions (columns left) key, positions (columns right) key) of
        ([i], [j]) \<Rightarrow>
          (let lcols = columns left;
               rcols = remove_nth j (columns right);
               llabels = map (\<lambda>c. if c \<in> set rcols then c @ ''_x'' else c) lcols;
               rlabels = map (\<lambda>c. if c \<in> set lcols then c @ ''_y'' else c) rcols
           in if suffix_duplicates llabels lcols @ suffix_duplicates rlabels rcols \<noteq> []
              then Inl (ValueError ''Passing suffixes which cause duplicate columns is not allowed'')
              else Inr \<lparr>columns = llabels @ rlabels,
                        rows = concat (map (join_row (rows right) i j (length rcols)) (rows left))\<rparr>)
      | ([], _) \<Rightarrow> Inl (KeyError key)
      | (_, []) \<Rightarrow> Inl (KeyError key)
      | _ \<Rightarrow> Inl (ValueError ''The column label is not unique''))"

text \<open>The statement \<^verbatim>\<open>df['State'] = df['State'].str.strip()\<close>.\<close>

definition strip_state :: "dataframe \<Rightarrow> dataframe result" where
  "strip_state df =
     (case getitem df ''State'' of
        Inl e \<Rightarrow> Inl e
      | Inr sel \<Rightarrow>
          (case str_accessor sel of
             Inl e \<Rightarrow> Inl e
           | Inr (j, cs) \<Rightarrow> Inr (setitem df j (map str_strip cs))))"

text \<open>
  \<^verbatim>\<open>merge_data\<close> receives two references to DataFrame objects and assigns to a column of
  each, so it runs over a heap of DataFrames and returns the heap it leaves behind. The
  merged table is a new object, returned by value.
\<close>

type_synonym ref = nat

type_synonym heap = "ref \<Rightarrow> dataframe"

definition merge_data :: "heap \<Rightarrow> ref \<Rightarrow> ref \<Rightarrow> dataframe result \<times> heap" where
  "merge_data h gas_df ev_df =
     (case strip_state (h gas_df) of
        Inl e \<Rightarrow> (Inl e, h)
      | Inr g \<Rightarrow>
          (let h1 = h(gas_df := g)
           in case strip_state (h1 ev_df) of
                Inl e \<Rightarrow> (Inl e, h1)
              | Inr v \<Rightarrow>
                  (let h2 = h1(ev_df := v)
                   in (pd_merge (h2 gas_df) (h2 ev_df) ''State'', h2))))"

section \<open>Publishing\<close>

text \<open>Python's truth value of a token or URL: \<^verbatim>\<open>None\<close> and the empty string are false.\<close>

fun truthy :: "string option \<Rightarrow> bool" where
  "truthy None = False"
| "truthy (Some s) = (s \<noteq> [])"

text \<open>How an f-string prints an optional string.\<close>

fun format_opt :: "string option \<Rightarrow> string" where
  "format_opt None = ''None''"
| "format_opt (Some s) = s"

text \<open>
  A Python dictionary built from pairs, in insertion order: a key that is already there
  keeps its place and takes the new value.
\<close>

fun dict_set :: "'k \<Rightarrow> 'v \<Rightarrow> ('k \<times> 'v) list \<Rightarrow> ('k \<times> 'v) list" where
  "dict_set k v [] = [(k, v)]"
| "dict_set k v ((k', v') # d) = (if k' = k then (k, v) # d else (k', v') # dict_set k v d)"

definition py_dict :: "('k \<times> 'v) list \<Rightarrow> ('k \<times> 'v) list" where
  "py_dict kvs = fold (\<lambda>(k, v). dict_set k v) kvs []"

text \<open>
  \<^verbatim>\<open>to_dict(orient='records')\<close>: one dictionary per row, from the labels to the cells
  of the row; of columns with the same label only the last one is left.
\<close>

definition to_dict_records :: "dataframe \<Rightarrow> records" where
  "to_dict_records df = map (\<lambda>r. py_dict (zip (columns df) r)) (rows df)"

text \<open>
  The module defines \<^verbatim>\<open>update_github_gist\<close> twice. The first definition (line 32) is
  the one with the token check; it ends after the check.
\<close>

definition update_github_gist_line32 ::
  "world \<Rightarrow> dataframe \<Rightarrow> string option \<Rightarrow> string \<Rightarrow> string option result \<times> event list" where
  "update_github_gist_line32 w dataframe token gist_id =
     (let ev = [Print [Lit (nl # ''--- Updating GitHub Gist ---'')]]
      in if \<not> truthy token
         then (Inr None, ev @ [Print [Lit ''Error: GITHUB_TOKEN environment variable not set!'']])
         else (Inr None, ev))"

text \<open>
  The second definition (line 149) rebinds the name, so it is the function that
  \<^verbatim>\<open>main\<close> calls. A response body that is not JSON makes \<^verbatim>\<open>response.json()\<close> raise
  the \<^verbatim>\<open>JSONDecodeError\<close> of requests, a \<^verbatim>\<open>RequestException\<close>; a key missing in the
  JSON raises \<^verbatim>\<open>KeyError\<close>, which no handler of this function catches.
\<close>

definition update_github_gist ::
  "world \<Rightarrow> dataframe \<Rightarrow> string option \<Rightarrow> string \<Rightarrow> string option result \<times> event list" where
  "update_github_gist w dataframe token gist_id =
     (let data_records = to_dict_records dataframe;
          full = \<lparr>scrape_date = strftime_now w, data = data_records\<rparr>;
          req = \<lparr>api_url = ''https://api.github.com/gists/'' @ gist_id,
                 headers = [(''Authorization'', ''token '' @ format_opt token),
                            (''Accept'', ''application/vnd.github+json'')],
                 description = ''AAA Fuel & EV Price Data - Updated '' @ scrape_date full,
                 content = full,
                 timeout = 30\<rparr>;
          ev = [Print [Lit (nl # ''--- Updating GitHub Gist ---'')], Patch req]
      in case requests_patch w req of
           PatchTimeout \<Rightarrow>
             (Inr None, ev @ [Print [Lit ''Error: Request to GitHub API timed out.'']])
         | PatchNoResponse \<Rightarrow>
             (Inr None, ev @ [Print [Lit ''Network error: '', Exc ConnectionError]])
         | PatchResponse status body json \<Rightarrow>
             if status = 200 then
               (case json of
                  None \<Rightarrow> (Inr None, ev @ [Print [Lit ''Network error: '', Exc JSONDecodeError]])
                | Some result \<Rightarrow>
                    (let ev1 = ev @ [Print [Lit ''Success! Gist updated.'']]
                     in case html_url result of
                          None \<Rightarrow> (Inl (KeyError ''html_url''), ev1)
                        | Some hu \<Rightarrow>
                            (let ev2 = ev1 @ [Print [Lit ''Gist URL: '', Lit hu]]
                             in case raw_url result of
                                  None \<Rightarrow> (Inl (KeyError ''raw_url''), ev2)
                                | Some ru \<Rightarrow>
                                    (Inr (Some ru),
                                     ev2 @ [Print [Lit ''Raw JSON URL (for your website): '', Lit ru]]))))
             else
               (Inr None,
                ev @ [Print [Lit ''Error from GitHub API: '', Number status],
                      Print [Lit ''Response: '', Lit (take 200 body), Lit ''...'']]))"

section \<open>The run\<close>

text \<open>The two handlers of \<^verbatim>\<open>main\<close>: the one for \<^verbatim>\<open>HTTPError\<close>, and the one for every other exception.\<close>

fun handler :: "error \<Rightarrow> event list" where
  "handler (HTTPError status) =
     Print [Lit (nl # ''HTTP Error: ''), Exc (HTTPError status)]
     # (if status = 403
        then [Print [Lit ''The website is blocking the request.''],
              Print [Lit ''Try increasing the crawl delay or using different headers.'']]
        else [])"
| "handler e = [Print [Lit (nl # ''An unexpected error occurred: ''), Exc e], Traceback e]"

definition banner :: "event list" where
  "banner =
     [Print [Lit (replicate 60 CHR ''='')],
      Print [Lit ''Starting AAA Daily Data Scraper''],
      Print [Lit ''Respecting robots.txt (Crawl-delay: 10 seconds)''],
      Print [Lit (replicate 60 CHR ''='')]]"

definition summary :: "dataframe \<Rightarrow> dataframe \<Rightarrow> event list" where
  "summary gas ev =
     [Print [Lit (nl # ''--- Summary ---'')],
      Print [Lit ''Gas prices: '', Number (length (rows gas)), Lit '' states/regions''],
      Print [Lit ''EV prices: '', Number (length (rows ev)), Lit '' states/regions'']]"

definition merged_report :: "dataframe \<Rightarrow> event list" where
  "merged_report m =
     [Print [Lit ''Merged data: '', Number (length (rows m)), Lit '' total entries''],
      Print [Lit (nl # ''Sample of merged data (first 3 rows):'')],
      Print [ToString (head 3 m)]]"

definition complete_report :: "string \<Rightarrow> event list" where
  "complete_report url =
     [Print [Lit (nl # replicate 60 CHR ''='')],
      Print [Lit ''SCRAPING PROCESS COMPLETE!''],
      Print [Lit (replicate 60 CHR ''='')],
      Print [Lit (nl # ''For your website, use this URL to fetch data:'')],
      Print [Lit url],
      Print [Lit (nl # ''JavaScript fetch example:'')],
      Print [Lit (''fetch('' @ [sq]), Lit url, Lit ([sq] @ '')'' @ [nl]),
             Lit (''  .then(response => response.json())'' @ [nl]),
             Lit (''  .then(data => {'' @ [nl]),
             Lit (''    console.log('' @ [sq] @ ''Last updated:'' @ [sq] @ '', data.scrape_date);'' @ [nl]),
             Lit (''    console.log('' @ [sq] @ ''Number of states:'' @ [sq] @ '', data.data.length);'' @ [nl]),
             Lit (''    // Access state data: data.data'' @ [nl]),
             Lit (''    data.data.forEach(state => {'' @ [nl]),
             Lit (''      console.log(state.State, state.Regular, state['' @ [sq] @ ''Cost/kWh'' @ [sq] @ '']);'' @ [nl]),
             Lit (''    });'' @ [nl]),
             Lit ''  });'']]"

text \<open>
  \<^verbatim>\<open>main\<close>: the two tables are fresh objects (references 0 and 1 of the heap that
  \<^verbatim>\<open>merge_data\<close> works on); the result is everything the run did, in order.
\<close>

definition main :: "world \<Rightarrow> event list" where
  "main w =
     (case scrape_aaa_gas_prices w gas_prices_url of
        (Inl e, ev1) \<Rightarrow> banner @ ev1 @ handler e
      | (Inr gas, ev1) \<Rightarrow>
          (case scrape_aaa_ev_prices w ev_prices_url of
             (Inl e, ev2) \<Rightarrow> banner @ ev1 @ ev2 @ handler e
           | (Inr ev, ev2) \<Rightarrow>
               (let h = (\<lambda>r. if r = 0 then gas else ev);
                    ev3 = banner @ ev1 @ ev2 @ summary gas ev
                in case merge_data h 0 1 of
                     (Inl e, h') \<Rightarrow> ev3 @ handler e
                   | (Inr merged, h') \<Rightarrow>
                       (case update_github_gist w merged (GITHUB_TOKEN w) GIST_ID of
                          (Inl e, ev4) \<Rightarrow> ev3 @ merged_report merged @ ev4 @ handler e
                        | (Inr url, ev4) \<Rightarrow>
                            ev3 @ merged_report merged @ ev4
                            @ (if truthy url then complete_report (format_opt url)
                               else [Print [Lit (nl # ''Failed to update Gist. Check the error above.'')]])))))"

section \<open>Vocabulary of the properties\<close>

fun is_Get :: "event \<Rightarrow> bool" where
  "is_Get (Get url hs) = True"
| "is_Get e = False"

fun is_Patch :: "event \<Rightarrow> bool" where
  "is_Patch (Patch req) = True"
| "is_Patch e = False"

definition blocking :: event where
  "blocking = Print [Lit ''The website is blocking the request.'']"

fun is_Num :: "cell \<Rightarrow> bool" where
  "is_Num (Num x) = True"
| "is_Num c = False"

text \<open>Every row of the frame has one cell per column label.\<close>

definition wf_frame :: "dataframe \<Rightarrow> bool" where
  "wf_frame df = (\<forall>r\<in>set (rows df). length r = length (columns df))"

text \<open>A row with the cell at position \<open>j\<close>, its region identifier, trimmed.\<close>

definition trim_at :: "nat \<Rightarrow> cell list \<Rightarrow> cell list" where
  "trim_at j r = r[j := str_strip (cell_at r j)]"

text \<open>
  Two frames that differ at most in their \<^verbatim>\<open>State\<close> columns: same labels, same row
  lengths, and the same cell wherever the label is not \<^verbatim>\<open>State\<close>.
\<close>

definition unchanged_outside_state :: "dataframe \<Rightarrow> dataframe \<Rightarrow> bool" where
  "unchanged_outside_state df df' =
     (columns df' = columns df \<and> map length (rows df') = map length (rows df)
      \<and> (\<forall>n<length (rows df). \<forall>k<length (columns df).
            columns df ! k \<noteq> ''State'' \<longrightarrow> cell_at (rows df' ! n) k = cell_at (rows df ! n) k))"

section \<open>Sample inputs\<close>

text \<open>A page without any table, as a site that blocks the request would send.\<close>

definition no_table :: node where
  "no_table = Elem ''[document]'' [Text ''Forbidden'']"

text \<open>
  A world in which every GET is answered with the given status, GitHub answers 401,
  and the environment variable \<^verbatim>\<open>GITHUB_TOKEN\<close> is not set.
\<close>

definition world_status :: "nat \<Rightarrow> world" where
  "world_status n =
     \<lparr>requests_get = (\<lambda>url. Response \<lparr>status_code = n, response_text = ''Forbidden''\<rparr>),
      requests_patch = (\<lambda>req. PatchResponse 401 ''Bad credentials'' None),
      read_html = (\<lambda>html. Inl (ValueError ''No tables found'')),
      BeautifulSoup = (\<lambda>html. no_table),
      numeric_text = is_py_float,
      float_str = (\<lambda>s. s),
      strftime_now = ''2026-01-01 06:00:00'',
      GITHUB_TOKEN = None,
      pandas3 = False\<rparr>"

definition fuel_tx :: dataframe where
  "fuel_tx = \<lparr>columns = [''State'', ''Regular''], rows = [[Str ''TX'', Num ''3.10'']]\<rparr>"

text \<open>Sample pages: one table, given by its rows.\<close>

definition td :: "string \<Rightarrow> node" where
  "td s = Elem ''td'' [Text s]"

definition th :: "string \<Rightarrow> node" where
  "th s = Elem ''th'' [Text s]"

definition page :: "node list list \<Rightarrow> node" where
  "page trs = Elem ''[document]'' [Elem ''table'' (map (Elem ''tr'') trs)]"

text \<open>
  A world in which every GET is answered with status 200, \<^verbatim>\<open>read_html\<close> fails (as it
  does when its parser library is not installed) and BeautifulSoup parses the text to
  the given page.
\<close>

definition world_page :: "node \<Rightarrow> world" where
  "world_page n =
     \<lparr>requests_get = (\<lambda>url. Response \<lparr>status_code = 200, response_text = ''<html>''\<rparr>),
      requests_patch = (\<lambda>req. PatchResponse 401 ''Bad credentials'' None),
      read_html = (\<lambda>html. Inl (OtherError ''ImportError: lxml not found, please install it'')),
      BeautifulSoup = (\<lambda>html. n),
      numeric_text = is_py_float,
      float_str = (\<lambda>s. s),
      strftime_now = ''2026-01-01 06:00:00'',
      GITHUB_TOKEN = None,
      pandas3 = False\<rparr>"

definition page_prices :: node where
  "page_prices = page [[th ''State'', th ''Regular''], [td '' TX '', td ''$3.459'']]"

definition page_garbage :: node where
  "page_garbage =
     page [[th ''State'', th ''Regular''], [td ''TX'', td ''$3.10''], [td ''CA'', td ''abc'']]"

definition page_ragged :: node where
  "page_ragged =
     page [[th ''State'', th ''Regular''], [td ''TX'', td ''$3.10''], [td ''CA'']]"

definition page_row_header :: node where
  "page_row_header = page [[th ''State'', th ''Regular''], [th ''TX'', td ''$3.10'']]"

text \<open>The first table of a page, and the frames the fallback parser builds from the samples.\<close>

definition table_of :: "node \<Rightarrow> node" where
  "table_of n = (case find_tag n ''table'' of Some t \<Rightarrow> t | None \<Rightarrow> n)"

definition frame_prices :: dataframe where
  "frame_prices = \<lparr>columns = [''State'', ''Regular''], rows = [[Str ''TX'', Num ''3.459'']]\<rparr>"

definition frame_ragged :: dataframe where
  "frame_ragged =
     \<lparr>columns = [''State'', ''Regular''], rows = [[Str ''TX'', Num ''3.10''], [Str ''CA'', Null]]\<rparr>"

text \<open>Tables for the merge, and a heap holding a fuel table at 0 and an EV table elsewhere.\<close>

definition fuel_ca :: dataframe where
  "fuel_ca = \<lparr>columns = [''State'', ''Regular''], rows = [[Str ''CA'', Num ''4.50'']]\<rparr>"

definition ev_ca :: dataframe where
  "ev_ca = \<lparr>columns = [''State'', ''Cost/kWh''], rows = [[Str ''CA'', Num ''0.30'']]\<rparr>"

definition merged_ca :: dataframe where
  "merged_ca = \<lparr>columns = [''State'', ''Regular'', ''Cost/kWh''],
                 rows = [[Str ''CA'', Num ''4.50'', Num ''0.30'']]\<rparr>"

definition ev_empty :: dataframe where
  "ev_empty = \<lparr>columns = [''State'', ''Cost/kWh''], rows = []\<rparr>"

definition merged_tx :: dataframe where
  "merged_tx = \<lparr>columns = [''State'', ''Regular'', ''Cost/kWh''],
                 rows = [[Str ''TX'', Num ''3.10'', Null]]\<rparr>"

definition ev_duplicate :: dataframe where
  "ev_duplicate = \<lparr>columns = [''State'', ''Cost/kWh''],
                    rows = [[Str ''TX'', Num ''0.30''], [Str (''TX'' @ [CHR 0xA0]), Num ''0.35'']]\<rparr>"

definition merged_duplicate :: dataframe where
  "merged_duplicate = \<lparr>columns = [''State'', ''Regular'', ''Cost/kWh''],
      rows = [[Str ''TX'', Num ''3.10'', Num ''0.30''], [Str ''TX'', Num ''3.10'', Num ''0.35'']]\<rparr>"

definition fuel_untrimmed :: dataframe where
  "fuel_untrimmed = \<lparr>columns = [''State'', ''Regular''], rows = [[Str '' TX '', Num ''3.10'']]\<rparr>"

definition two_tables :: "dataframe \<Rightarrow> dataframe \<Rightarrow> heap" where
  "two_tables gas ev = (\<lambda>r. if r = 0 then gas else ev)"

text \<open>
  A frame as \<^verbatim>\<open>read_html\<close> may give it, with blanks around labels and values, and a
  world in which \<^verbatim>\<open>read_html\<close> finds the given tables.
\<close>

definition frame_region :: dataframe where
  "frame_region = \<lparr>columns = ['' Region '', ''Regular ''], rows = [[Str '' TX '', Num ''3.10'']]\<rparr>"

definition world_tables :: "dataframe list \<Rightarrow> world" where
  "world_tables tables =
     \<lparr>requests_get = (\<lambda>url. Response \<lparr>status_code = 200, response_text = ''<html>''\<rparr>),
      requests_patch = (\<lambda>req. PatchResponse 401 ''Bad credentials'' None),
      read_html = (\<lambda>html. Inr tables),
      BeautifulSoup = (\<lambda>html. no_table),
      numeric_text = is_py_float,
      float_str = (\<lambda>s. s),
      strftime_now = ''2026-01-01 06:00:00'',
      GITHUB_TOKEN = None,
      pandas3 = False\<rparr>"


section \<open>The fetcher\<close>

text \<open>
  C4, as the code has it: \<^verbatim>\<open>make_respectful_request\<close> issues exactly one GET request, to
  the given URL with the fixed headers. A response with a status from 400 to 599 is a
  fatal error of the call, an \<^verbatim>\<open>HTTPError\<close> carrying the status; a response with any
  other status, 2xx or not, is returned.
\<close>

theorem make_respectful_request_status:
  assumes "requests_get w url = Response r"
  shows "filter is_Get (snd (make_respectful_request w url)) = [Get url HEADERS]
       \<and> fst (make_respectful_request w url) =
           (if 400 \<le> status_code r \<and> status_code r < 600 then Inl (HTTPError (status_code r))
            else Inr r)"
  using assms by (auto simp: make_respectful_request_def raise_for_status_def Let_def)

theorem make_respectful_request_status_witness:
  "requests_get (world_status 403) gas_prices_url
     = Response \<lparr>status_code = 403, response_text = ''Forbidden''\<rparr>
   \<and> filter is_Get (snd (make_respectful_request (world_status 403) gas_prices_url))
       = [Get gas_prices_url HEADERS]
   \<and> fst (make_respectful_request (world_status 403) gas_prices_url) = Inl (HTTPError 403)"
  using make_respectful_request_status
    [of "world_status 403" gas_prices_url "\<lparr>status_code = 403, response_text = ''Forbidden''\<rparr>"]
  by (simp add: world_status_def)

text \<open>
  C4 as stated fails: 304 is not a 2xx status, and the response is returned, not raised.
\<close>

theorem make_respectful_request_304_counterexample:
  "\<not> (200 \<le> (304::nat) \<and> (304::nat) < 300)
   \<and> fst (make_respectful_request (world_status 304) gas_prices_url)
       = Inr \<lparr>status_code = 304, response_text = ''Forbidden''\<rparr>"
  by (simp add: make_respectful_request_def raise_for_status_def world_status_def)

section \<open>The publisher\<close>

text \<open>
  C1 at the failing input: with no token (\<^verbatim>\<open>None\<close>) and with the empty token, the
  function that the name \<^verbatim>\<open>update_github_gist\<close> is bound to sends the PATCH request as
  the second thing it does; only the shadowed first definition stops before it.
\<close>

theorem update_github_gist_without_token:
  "map is_Patch (snd (update_github_gist (world_status 200) fuel_tx None GIST_ID))
     = [False, True, False, False]
   \<and> map is_Patch (snd (update_github_gist (world_status 200) fuel_tx (Some []) GIST_ID))
     = [False, True, False, False]
   \<and> map is_Patch (snd (update_github_gist_line32 (world_status 200) fuel_tx None GIST_ID))
     = [False, False]"
  by (simp add: update_github_gist_def update_github_gist_line32_def world_status_def Let_def)

section \<open>The run\<close>

lemma no_patch_request:
  "make_respectful_request w url = (r, ev) \<Longrightarrow> list_all (\<lambda>e. \<not> is_Patch e) ev"
  by (auto simp: make_respectful_request_def Let_def split: get_outcome.splits sum.splits)

lemma no_patch_manually:
  "extract_table_manually w html = (r, ev) \<Longrightarrow> list_all (\<lambda>e. \<not> is_Patch e) ev"
  by (auto simp: extract_table_manually_def Let_def split: option.splits sum.splits)

lemma no_patch_extract:
  "extract_table_data w html = (r, ev) \<Longrightarrow> list_all (\<lambda>e. \<not> is_Patch e) ev"
  by (auto simp: extract_table_data_def Let_def split: sum.splits prod.splits
      dest: no_patch_manually)

lemma no_patch_found: "list_all (\<lambda>e. \<not> is_Patch e) (found_table df)"
  by (simp add: found_table_def)

lemma no_patch_delay: "list_all (\<lambda>e. \<not> is_Patch e) crawl_delay"
  by (simp add: crawl_delay_def list_all_iff)

lemma no_patch_gas:
  "scrape_aaa_gas_prices w url = (r, ev) \<Longrightarrow> list_all (\<lambda>e. \<not> is_Patch e) ev"
  by (auto simp: scrape_aaa_gas_prices_def Let_def no_patch_found
      split: sum.splits prod.splits dest: no_patch_request no_patch_extract)

lemma no_patch_ev:
  "scrape_aaa_ev_prices w url = (r, ev) \<Longrightarrow> list_all (\<lambda>e. \<not> is_Patch e) ev"
  by (auto simp: scrape_aaa_ev_prices_def Let_def no_patch_found no_patch_delay
      split: sum.splits prod.splits if_splits dest: no_patch_request no_patch_extract)

lemma no_patch_banner: "list_all (\<lambda>e. \<not> is_Patch e) banner"
  by (simp add: banner_def)

lemma gas_403:
  "fst (make_respectful_request w url) = Inl (HTTPError 403) \<Longrightarrow>
   fst (scrape_aaa_gas_prices w url) = Inl (HTTPError 403)"
  by (auto simp: scrape_aaa_gas_prices_def Let_def split: sum.splits prod.splits)

lemma ev_403:
  "fst (make_respectful_request w url) = Inl (HTTPError 403) \<Longrightarrow>
   fst (scrape_aaa_ev_prices w url) = Inl (HTTPError 403)"
  by (auto simp: scrape_aaa_ev_prices_def Let_def split: sum.splits prod.splits)

text \<open>
  C9: when a fetch raises the HTTP error 403 (the first fetch, or the second one after
  the first page was scraped), the run contains no PATCH request at all, and it prints
  that the website is blocking the request.
\<close>

theorem main_403_aborts_before_publish:
  assumes "fst (make_respectful_request w gas_prices_url) = Inl (HTTPError 403)
         \<or> (\<exists>gas. fst (scrape_aaa_gas_prices w gas_prices_url) = Inr gas)
           \<and> fst (make_respectful_request w ev_prices_url) = Inl (HTTPError 403)"
  shows "list_all (\<lambda>e. \<not> is_Patch e) (main w) \<and> blocking \<in> set (main w)"
  using assms
proof
  assume "fst (make_respectful_request w gas_prices_url) = Inl (HTTPError 403)"
  then have "fst (scrape_aaa_gas_prices w gas_prices_url) = Inl (HTTPError 403)"
    by (rule gas_403)
  then obtain ev1 where g: "scrape_aaa_gas_prices w gas_prices_url = (Inl (HTTPError 403), ev1)"
    by (cases "scrape_aaa_gas_prices w gas_prices_url") simp
  have "main w = banner @ ev1 @ handler (HTTPError 403)"
    by (simp add: main_def g)
  then show ?thesis
    using no_patch_gas [OF g] no_patch_banner by (simp add: blocking_def)
next
  assume a: "(\<exists>gas. fst (scrape_aaa_gas_prices w gas_prices_url) = Inr gas)
           \<and> fst (make_respectful_request w ev_prices_url) = Inl (HTTPError 403)"
  then obtain gas ev1 where g: "scrape_aaa_gas_prices w gas_prices_url = (Inr gas, ev1)"
    by (cases "scrape_aaa_gas_prices w gas_prices_url") auto
  from a have "fst (scrape_aaa_ev_prices w ev_prices_url) = Inl (HTTPError 403)"
    by (simp add: ev_403)
  then obtain ev2 where v: "scrape_aaa_ev_prices w ev_prices_url = (Inl (HTTPError 403), ev2)"
    by (cases "scrape_aaa_ev_prices w ev_prices_url") simp
  have "main w = banner @ ev1 @ ev2 @ handler (HTTPError 403)"
    by (simp add: main_def g v)
  then show ?thesis
    using no_patch_gas [OF g] no_patch_ev [OF v] no_patch_banner by (simp add: blocking_def)
qed

theorem main_403_aborts_before_publish_witness:
  "fst (make_respectful_request (world_status 403) gas_prices_url) = Inl (HTTPError 403)
   \<and> list_all (\<lambda>e. \<not> is_Patch e) (main (world_status 403))
   \<and> blocking \<in> set (main (world_status 403))"
  using main_403_aborts_before_publish [of "world_status 403"]
  by (simp add: make_respectful_request_def raise_for_status_def world_status_def)

section \<open>The fallback parser\<close>

subsection \<open>The DataFrame constructor\<close>

lemma fold_max_ge: "m \<le> fold max xs (m::nat)"
  by (induction xs arbitrary: m) (auto intro: order_trans [OF max.cobounded2])

lemma fold_max_mem: "x \<in> set xs \<Longrightarrow> x \<le> fold max xs (m::nat)"
proof (induction xs arbitrary: m)
  case Nil
  then show ?case by simp
next
  case (Cons a xs)
  show ?case
  proof (cases "x = a")
    case True
    have "max a m \<le> fold max xs (max a m)" by (rule fold_max_ge)
    with True show ?thesis by simp
  next
    case False
    with Cons show ?thesis by simp
  qed
qed

lemma fold_max_in: "fold max xs (m::nat) = m \<or> fold max xs m \<in> set xs"
proof (induction xs arbitrary: m)
  case Nil
  then show ?case by simp
next
  case (Cons a xs)
  from Cons [of "max a m"] show ?case by (auto simp: max_def split: if_splits)
qed

lemma widest_ge: "r \<in> set xss \<Longrightarrow> length r \<le> widest xss"
  by (simp add: widest_def fold_max_mem)

lemma widest_attained: "xss \<noteq> [] \<Longrightarrow> \<exists>r\<in>set xss. length r = widest xss"
proof -
  assume ne: "xss \<noteq> []"
  then obtain r where r: "r \<in> set xss" by (cases xss) auto
  from fold_max_in [of "map length xss" 0]
  show ?thesis
  proof
    assume z: "fold max (map length xss) 0 = 0"
    from r have "length r \<le> widest xss" by (rule widest_ge)
    with z have "length r = widest xss" by (simp add: widest_def)
    with r show ?thesis by blast
  next
    assume "fold max (map length xss) 0 \<in> set (map length xss)"
    then show ?thesis by (auto simp: widest_def)
  qed
qed

lemma DataFrame_Inr:
  assumes "DataFrame xss cols = Inr df"
  shows "columns df = cols"
    and "length (rows df) = length xss"
    and "\<forall>r\<in>set (rows df). length r = length cols"
    and "i < length xss \<Longrightarrow> j < length (xss ! i) \<Longrightarrow> rows df ! i ! j = Str (xss ! i ! j)"
proof -
  show "columns df = cols" using assms by (auto simp: DataFrame_def Let_def split: if_splits)
  show "length (rows df) = length xss"
    using assms by (auto simp: DataFrame_def Let_def split: if_splits)
  show "\<forall>r\<in>set (rows df). length r = length cols"
    using assms widest_ge [of _ xss]
    by (auto simp: DataFrame_def Let_def split: if_splits)
  show "i < length xss \<Longrightarrow> j < length (xss ! i) \<Longrightarrow> rows df ! i ! j = Str (xss ! i ! j)"
    using assms by (auto simp: DataFrame_def Let_def nth_append split: if_splits)
qed

lemma DataFrame_Inl_iff:
  "(\<exists>e. DataFrame xss cols = Inl e) \<longleftrightarrow> xss \<noteq> [] \<and> length cols \<noteq> widest xss"
  by (auto simp: DataFrame_def Let_def)


lemma astype_float_Inr:
  "astype_float cs = Inr vs \<Longrightarrow>
     length vs = length cs \<and> (\<forall>i<length cs. to_float (cs ! i) = Inr (vs ! i))"
proof (induction cs arbitrary: vs)
  case Nil
  then show ?case by simp
next
  case (Cons c cs)
  from Cons.prems obtain v vs' where v: "to_float c = Inr v" and vs': "astype_float cs = Inr vs'"
    and eq: "vs = v # vs'"
    by (auto split: sum.splits)
  from Cons.IH [OF vs'] v eq show ?case
    by (auto simp: nth_Cons split: nat.splits)
qed

lemma to_float_not_Str: "to_float c = Inr v \<Longrightarrow> \<not> is_Str v"
  by (cases c) (auto split: if_splits)

lemma to_float_Str: "to_float (Str t) = Inr v \<Longrightarrow> v = Num t \<and> is_py_float t"
  by (auto split: if_splits)

lemma positions_single:
  "positions cols c = [j] \<Longrightarrow> j < length cols \<and> cols ! j = c \<and> (\<forall>k<length cols. cols ! k = c \<longrightarrow> k = j)"
proof -
  assume a: "positions cols c = [j]"
  then have "set (positions cols c) = {j}" by simp
  then have s: "{k. k < length cols \<and> cols ! k = c} = {j}"
    by (auto simp: positions_def)
  then have "j \<in> {k. k < length cols \<and> cols ! k = c}" by simp
  moreover have "\<forall>k<length cols. cols ! k = c \<longrightarrow> k = j" using s by blast
  ultimately show ?thesis by simp
qed

lemma positions_Nil: "c \<in> set cols \<Longrightarrow> positions cols c \<noteq> []"
  by (auto simp: positions_def filter_empty_conv in_set_conv_nth)

lemma setitem_columns [simp]: "columns (setitem df j vs) = columns df"
  by (simp add: setitem_def)

lemma setitem_length [simp]: "length vs = length (rows df) \<Longrightarrow> length (rows (setitem df j vs)) = length (rows df)"
  by (simp add: setitem_def)

lemma setitem_row:
  "length vs = length (rows df) \<Longrightarrow> i < length (rows df) \<Longrightarrow>
   rows (setitem df j vs) ! i = (rows df ! i)[j := vs ! i]"
  by (simp add: setitem_def)

lemma setitem_wf: "length vs = length (rows df) \<Longrightarrow> wf_frame df \<Longrightarrow> wf_frame (setitem df j vs)"
  by (auto simp: wf_frame_def setitem_def set_zip)

lemma column_nth: "i < length (rows df) \<Longrightarrow> column df j ! i = cell_at (rows df ! i) j"
  by (simp add: column_def)

lemma column_length [simp]: "length (column df j) = length (rows df)"
  by (simp add: column_def)


lemma clean_step:
  assumes "clean_numeric_columns (col # cols) df = Inr df'" and "col \<noteq> ''State''"
  obtains j vs where "positions (columns df) col = [j]"
    and "list_ex is_Str (column df j) \<or> list_all (\<lambda>c. c = Null) (column df j)"
    and "astype_float (map str_replace_dollar (column df j)) = Inr vs"
    and "clean_numeric_columns cols (setitem df j vs) = Inr df'"
  using assms
  by (auto simp: getitem_def str_accessor_def
      split: sum.splits list.splits selection.splits if_splits prod.splits)

lemma clean_skip:
  "clean_numeric_columns (''State'' # cols) df = clean_numeric_columns cols df"
  by simp

lemma clean_frame:
  "clean_numeric_columns cols df = Inr df' \<Longrightarrow>
     columns df' = columns df \<and> length (rows df') = length (rows df)
     \<and> (wf_frame df \<longrightarrow> wf_frame df')"
proof (induction cols arbitrary: df)
  case Nil
  then show ?case by simp
next
  case (Cons col cols)
  show ?case
  proof (cases "col = ''State''")
    case True
    with Cons show ?thesis by simp
  next
    case False
    from Cons.prems False obtain j vs where
      vs: "astype_float (map str_replace_dollar (column df j)) = Inr vs"
      and rest: "clean_numeric_columns cols (setitem df j vs) = Inr df'"
      by (rule clean_step)
    from vs have len: "length vs = length (rows df)"
      by (auto dest: astype_float_Inr)
    from Cons.IH [OF rest] len show ?thesis
      by (simp add: setitem_wf)
  qed
qed

lemma setitem_cell:
  assumes "length vs = length (rows df)" "i < length (rows df)"
  shows "cell_at (rows (setitem df j vs) ! i) k =
           (if k = j \<and> j < length (rows df ! i) then vs ! i else cell_at (rows df ! i) k)"
  using assms by (simp add: setitem_row cell_at_def)

lemma converted_stays:
  assumes "clean_numeric_columns cols df = Inr df'" "wf_frame df" "i < length (rows df)"
    "j < length (columns df)" "\<forall>r\<in>set (rows df). \<not> is_Str (cell_at r j)"
  shows "cell_at (rows df' ! i) j = cell_at (rows df ! i) j"
  using assms
proof (induction cols arbitrary: df)
  case Nil
  then show ?case by simp
next
  case (Cons col cols)
  show ?case
  proof (cases "col = ''State''")
    case True
    with Cons show ?thesis by simp
  next
    case False
    from Cons.prems(1) False obtain k vs where
      ok: "list_ex is_Str (column df k) \<or> list_all (\<lambda>c. c = Null) (column df k)"
      and vs: "astype_float (map str_replace_dollar (column df k)) = Inr vs"
      and rest: "clean_numeric_columns cols (setitem df k vs) = Inr df'"
      by (rule clean_step)
    from vs have len: "length vs = length (rows df)"
      and conv: "\<forall>n<length (rows df). to_float (str_replace_dollar (column df k ! n)) = Inr (vs ! n)"
      by (auto dest: astype_float_Inr)
    have same: "\<forall>n<length (rows df). cell_at (rows (setitem df k vs) ! n) j = cell_at (rows df ! n) j"
    proof (intro allI impI)
      fix n assume n: "n < length (rows df)"
      show "cell_at (rows (setitem df k vs) ! n) j = cell_at (rows df ! n) j"
      proof (cases "k = j")
        case False
        with len n show ?thesis by (simp add: setitem_cell)
      next
        case True
        from Cons.prems(5) have "\<not> list_ex is_Str (column df j)"
          by (auto simp: column_def list_ex_iff)
        with ok True have "list_all (\<lambda>c. c = Null) (column df j)" by simp
        then have nul: "column df j ! n = Null" using n
          by (simp add: list_all_length)
        with conv n True have "vs ! n = Null" by auto
        moreover from nul n have "cell_at (rows df ! n) j = Null" by (simp add: column_nth)
        ultimately show ?thesis using len n True by (simp add: setitem_cell)
      qed
    qed
    have wf': "wf_frame (setitem df k vs)" using len Cons.prems(2) by (rule setitem_wf)
    have nostr: "\<forall>r\<in>set (rows (setitem df k vs)). \<not> is_Str (cell_at r j)"
    proof
      fix r assume "r \<in> set (rows (setitem df k vs))"
      then obtain n where n: "n < length (rows df)" and r: "r = rows (setitem df k vs) ! n"
        using len by (auto simp: in_set_conv_nth)
      from same n r have "cell_at r j = cell_at (rows df ! n) j" by simp
      with Cons.prems(5) n show "\<not> is_Str (cell_at r j)" by simp
    qed
    have "cell_at (rows df' ! i) j = cell_at (rows (setitem df k vs) ! i) j"
      using Cons.IH [OF rest wf' _ _ nostr] Cons.prems(3,4) len by simp
    with same Cons.prems(3) show ?thesis by simp
  qed
qed


lemma clean_cell:
  assumes "clean_numeric_columns cols df = Inr df'" "wf_frame df" "i < length (rows df)"
    "j < length (columns df)" "columns df ! j \<in> set cols" "columns df ! j \<noteq> ''State''"
    "cell_at (rows df ! i) j = Str t"
  shows "is_py_float (remove_dollar t) \<and> cell_at (rows df' ! i) j = Num (remove_dollar t)"
  using assms
proof (induction cols arbitrary: df)
  case Nil
  then show ?case by simp
next
  case (Cons col cols)
  show ?case
  proof (cases "col = ''State''")
    case True
    with Cons.prems have "columns df ! j \<in> set cols" by auto
    with Cons.IH [of df] Cons.prems True show ?thesis by simp
  next
    case False
    from Cons.prems(1) False obtain k vs where
      pos: "positions (columns df) col = [k]"
      and vs: "astype_float (map str_replace_dollar (column df k)) = Inr vs"
      and rest: "clean_numeric_columns cols (setitem df k vs) = Inr df'"
      by (rule clean_step)
    from vs have len: "length vs = length (rows df)"
      and conv: "\<forall>n<length (rows df). to_float (str_replace_dollar (column df k ! n)) = Inr (vs ! n)"
      by (auto dest: astype_float_Inr)
    have wf': "wf_frame (setitem df k vs)" using len Cons.prems(2) by (rule setitem_wf)
    have rowlen: "\<forall>n<length (rows df). length (rows df ! n) = length (columns df)"
      using Cons.prems(2) by (simp add: wf_frame_def)
    show ?thesis
    proof (cases "col = columns df ! j")
      case True
      with pos Cons.prems(4) have kj: "k = j" by (auto dest: positions_single)
      from conv Cons.prems(3) have "to_float (str_replace_dollar (column df k ! i)) = Inr (vs ! i)"
        by blast
      with Cons.prems(3,7) kj
      have "to_float (Str (remove_dollar t)) = Inr (vs ! i)"
        by (simp add: column_nth del: to_float.simps)
      then have vi: "vs ! i = Num (remove_dollar t)" and fl: "is_py_float (remove_dollar t)"
        by (auto split: if_splits)
      have cell1: "\<forall>n<length (rows df). cell_at (rows (setitem df k vs) ! n) j = vs ! n"
        using len rowlen Cons.prems(4) kj by (simp add: setitem_cell)
      have nostr: "\<forall>r\<in>set (rows (setitem df k vs)). \<not> is_Str (cell_at r j)"
      proof
        fix r assume "r \<in> set (rows (setitem df k vs))"
        then obtain n where n: "n < length (rows df)" and r: "r = rows (setitem df k vs) ! n"
          using len by (auto simp: in_set_conv_nth)
        from conv n have "\<not> is_Str (vs ! n)" by (auto dest: to_float_not_Str)
        with cell1 n r show "\<not> is_Str (cell_at r j)" by simp
      qed
      have "cell_at (rows df' ! i) j = cell_at (rows (setitem df k vs) ! i) j"
        using converted_stays [OF rest wf' _ _ nostr] Cons.prems(3,4) len by simp
      with cell1 Cons.prems(3) vi fl show ?thesis by simp
    next
      case False
      with pos have kj: "k \<noteq> j" by (auto dest: positions_single)
      from False Cons.prems(5) have mem: "columns (setitem df k vs) ! j \<in> set cols" by simp
      have cell1: "cell_at (rows (setitem df k vs) ! i) j = Str t"
        using len Cons.prems(3,7) kj by (simp add: setitem_cell)
      from Cons.IH [OF rest wf' _ _ mem _ cell1] Cons.prems(3,4,6) len
      show ?thesis by simp
    qed
  qed
qed

lemma DataFrame_wf: "DataFrame xss cols = Inr df \<Longrightarrow> wf_frame df"
  using DataFrame_Inr(1,3) [of xss cols df] by (simp add: wf_frame_def)

lemma manual_cases:
  assumes "find_tag (BeautifulSoup w html) ''table'' = Some table"
  shows "fst (extract_table_manually w html) =
           (case DataFrame (table_rows table) (table_headers table) of
              Inl e \<Rightarrow> Inl e
            | Inr df \<Rightarrow> clean_numeric_columns (columns df) df)"
  using assms by (simp add: extract_table_manually_def Let_def split: sum.splits)

subsection \<open>A float literal contains no dollar sign\<close>

lemma digitpart_no_dollar: "digitpart s \<Longrightarrow> CHR ''$'' \<notin> set s"
  by (induction s rule: digitpart.induct) (auto simp: is_digit_def split: if_splits)

lemma split_set: "set s = set (takeWhile P s) \<union> set (dropWhile P s)"
proof -
  have "set s = set (takeWhile P s @ dropWhile P s)" by simp
  then show ?thesis by (simp only: set_append)
qed

lemma number_no_dollar: "number s \<Longrightarrow> CHR ''$'' \<notin> set s"
proof -
  assume n: "number s"
  let ?P = "\<lambda>c. c \<noteq> CHR ''.''"
  have a: "CHR ''$'' \<notin> set (takeWhile ?P s)"
    using n by (auto simp: number_def Let_def split: list.splits dest: digitpart_no_dollar)
  have b: "CHR ''$'' \<notin> set (dropWhile ?P s)"
  proof (cases "dropWhile ?P s")
    case Nil
    show ?thesis unfolding Nil by simp
  next
    case (Cons x f)
    then have "x = CHR ''.''" using hd_dropWhile [of ?P s] by auto
    moreover have "CHR ''$'' \<notin> set f"
      using n Cons by (auto simp: number_def Let_def dest: digitpart_no_dollar)
    ultimately show ?thesis using Cons by simp
  qed
  from a b show ?thesis using split_set [of s ?P] by simp
qed

lemma drop_sign_set: "c \<in> set s \<Longrightarrow> c \<in> set (drop_sign s) \<or> c = CHR ''+'' \<or> c = CHR ''-''"
proof (cases s)
  case Nil
  assume "c \<in> set s"
  with Nil show ?thesis by simp
next
  case (Cons a t)
  assume c: "c \<in> set s"
  show ?thesis
  proof (cases "a = CHR ''+'' \<or> a = CHR ''-''")
    case True
    then have "drop_sign s = t" using Cons by (simp add: drop_sign_def)
    with c Cons True show ?thesis by auto
  next
    case False
    then have "drop_sign s = s" using Cons by (simp add: drop_sign_def)
    with c show ?thesis by simp
  qed
qed

lemma floatnumber_no_dollar: "floatnumber s \<Longrightarrow> CHR ''$'' \<notin> set s"
proof -
  assume n: "floatnumber s"
  let ?P = "\<lambda>c. \<not> is_e c"
  have a: "CHR ''$'' \<notin> set (takeWhile ?P s)"
    using n by (auto simp: floatnumber_def Let_def split: list.splits dest: number_no_dollar)
  have b: "CHR ''$'' \<notin> set (dropWhile ?P s)"
  proof (cases "dropWhile ?P s")
    case Nil
    show ?thesis unfolding Nil by simp
  next
    case (Cons x ex)
    then have "is_e x" using hd_dropWhile [of ?P s] by auto
    then have x: "x \<noteq> CHR ''$''" by (auto simp: is_e_def)
    have "digitpart (drop_sign ex)"
      using n Cons by (simp add: floatnumber_def Let_def)
    then have "CHR ''$'' \<notin> set (drop_sign ex)" by (rule digitpart_no_dollar)
    then have "CHR ''$'' \<notin> set ex" using drop_sign_set [of "CHR ''$''" ex] by auto
    with x Cons show ?thesis by simp
  qed
  from a b show ?thesis using split_set [of s ?P] by simp
qed

lemma lower_dollar: "lower CHR ''$'' = CHR ''$''"
  by (simp add: lower_def)

lemma named_no_dollar:
  "map lower t \<in> set [''inf'', ''infinity'', ''nan''] \<Longrightarrow> CHR ''$'' \<notin> set t"
proof
  assume m: "map lower t \<in> set [''inf'', ''infinity'', ''nan'']" and d: "CHR ''$'' \<in> set t"
  from d have "lower CHR ''$'' \<in> set (map lower t)" by (simp only: set_map image_eqI)
  then have x: "CHR ''$'' \<in> set (map lower t)" by (simp only: lower_dollar)
  from m have "map lower t = ''inf'' \<or> map lower t = ''infinity'' \<or> map lower t = ''nan''"
    by (simp only: list.set insert_iff empty_iff simp_thms)
  then show False
  proof (elim disjE)
    assume "map lower t = ''inf''"
    with x have "CHR ''$'' \<in> set ''inf''" by (simp only:)
    then show False by simp
  next
    assume "map lower t = ''infinity''"
    with x have "CHR ''$'' \<in> set ''infinity''" by (simp only:)
    then show False by simp
  next
    assume "map lower t = ''nan''"
    with x have "CHR ''$'' \<in> set ''nan''" by (simp only:)
    then show False by simp
  qed
qed

lemma float_strip_set: "c \<in> set s \<Longrightarrow> c \<in> set (float_strip s) \<or> is_float_space c"
proof -
  assume c: "c \<in> set s"
  let ?t = "dropWhile is_float_space s"
  from c split_set [of s is_float_space]
  have "c \<in> set (takeWhile is_float_space s) \<or> c \<in> set ?t" by simp
  then show ?thesis
  proof
    assume "c \<in> set (takeWhile is_float_space s)"
    then show ?thesis by (auto dest: set_takeWhileD)
  next
    assume "c \<in> set ?t"
    then have "c \<in> set (rev ?t)" by simp
    with split_set [of "rev ?t" is_float_space]
    have "c \<in> set (takeWhile is_float_space (rev ?t))
        \<or> c \<in> set (dropWhile is_float_space (rev ?t))" by simp
    then show ?thesis by (auto simp: float_strip_def dest: set_takeWhileD)
  qed
qed

lemma is_py_float_no_dollar: "is_py_float s \<Longrightarrow> CHR ''$'' \<notin> set s"
proof
  assume f: "is_py_float s" and d: "CHR ''$'' \<in> set s"
  have "\<not> is_float_space CHR ''$''" by (simp add: is_float_space_def)
  with d float_strip_set [of "CHR ''$''" s] have "CHR ''$'' \<in> set (float_strip s)" by simp
  with drop_sign_set [of "CHR ''$''" "float_strip s"]
  have "CHR ''$'' \<in> set (drop_sign (float_strip s))" by simp
  moreover have "CHR ''$'' \<notin> set (drop_sign (float_strip s))"
  proof -
    from f have "map lower (drop_sign (float_strip s)) \<in> set [''inf'', ''infinity'', ''nan'']
        \<or> floatnumber (drop_sign (float_strip s))"
      by (simp only: is_py_float_def Let_def)
    then show ?thesis
      using named_no_dollar floatnumber_no_dollar by blast
  qed
  ultimately show False by simp
qed

lemma remove_dollar_id: "CHR ''$'' \<notin> set s \<Longrightarrow> remove_dollar (CHR ''$'' # s) = s"
  by (auto simp: remove_dollar_def filter_id_conv)

subsection \<open>The cells of the table the fallback parser returns\<close>

lemma fallback_frame:
  assumes t: "find_tag (BeautifulSoup w html) ''table'' = Some table"
    and r: "fst (extract_table_manually w html) = Inr df"
  obtains df0 where "DataFrame (table_rows table) (table_headers table) = Inr df0"
    and "clean_numeric_columns (columns df0) df0 = Inr df"
  using r unfolding manual_cases [OF t] by (auto split: sum.splits)

lemma fallback_cell:
  assumes t: "find_tag (BeautifulSoup w html) ''table'' = Some table"
    and r: "fst (extract_table_manually w html) = Inr df"
    and i: "i < length (table_rows table)" and j: "j < length (table_rows table ! i)"
    and l: "table_headers table ! j \<noteq> ''State''"
  shows "is_py_float (remove_dollar (table_rows table ! i ! j))
       \<and> cell_at (rows df ! i) j = Num (remove_dollar (table_rows table ! i ! j))"
proof -
  from t r obtain df0 where d: "DataFrame (table_rows table) (table_headers table) = Inr df0"
    and c: "clean_numeric_columns (columns df0) df0 = Inr df"
    by (rule fallback_frame)
  note f = DataFrame_Inr [OF d]
  have wf: "wf_frame df0" using d by (rule DataFrame_wf)
  from i have mem: "table_rows table ! i \<in> set (table_rows table)" by simp
  from i have ne: "table_rows table \<noteq> []" by auto
  have "length (table_rows table ! i) \<le> widest (table_rows table)"
    using mem by (rule widest_ge)
  moreover have "length (table_headers table) = widest (table_rows table)"
    using d ne by (auto simp: DataFrame_def Let_def split: if_splits)
  ultimately have jc: "j < length (columns df0)" using j f(1) by simp
  have i0: "i < length (rows df0)" using i f(2) by simp
  have cell0: "cell_at (rows df0 ! i) j = Str (table_rows table ! i ! j)"
    using f(4) [OF i j] f(1) f(3) i0 jc by (simp add: cell_at_def)
  have lab: "columns df0 ! j \<in> set (columns df0)" using jc by simp
  have ns: "columns df0 ! j \<noteq> ''State''" using l f(1) by simp
  from clean_cell [OF c wf i0 jc lab ns cell0] show ?thesis .
qed

subsection \<open>When the fallback parser returns a table\<close>

lemma single_list: "distinct xs \<Longrightarrow> set xs = {x} \<Longrightarrow> xs = [x]"
proof (cases xs)
  case Nil
  assume "set xs = {x}"
  with Nil show ?thesis by simp
next
  case (Cons a ys)
  assume d: "distinct xs" and s: "set xs = {x}"
  from s Cons have a: "a = x" by auto
  from d Cons have "a \<notin> set ys" by simp
  moreover from s Cons a have "set ys \<subseteq> {a}" by auto
  ultimately have "ys = []" by (cases ys) auto
  with Cons a show ?thesis by simp
qed

lemma positions_distinct:
  assumes "distinct cols" "j < length cols"
  shows "positions cols (cols ! j) = [j]"
proof (rule single_list)
  show "distinct (positions cols (cols ! j))" by (simp add: positions_def)
  show "set (positions cols (cols ! j)) = {j}"
    using assms by (auto simp: positions_def nth_eq_iff_index_eq)
qed

lemma astype_float_total:
  "\<forall>c\<in>set cs. \<exists>v. to_float c = Inr v \<Longrightarrow> \<exists>vs. astype_float cs = Inr vs"
  by (induction cs) (auto split: sum.splits)

lemma clean_progress:
  assumes "wf_frame df" "distinct cols" "set cols \<subseteq> set (columns df)" "distinct (columns df)"
    and "\<forall>r\<in>set (rows df). \<forall>k<length (columns df).
           columns df ! k \<in> set cols \<longrightarrow> columns df ! k \<noteq> ''State'' \<longrightarrow>
           (\<exists>t. cell_at r k = Str t \<and> is_py_float (remove_dollar t))"
  shows "\<exists>df'. clean_numeric_columns cols df = Inr df'"
  using assms
proof (induction cols arbitrary: df)
  case Nil
  then show ?case by simp
next
  case (Cons col cols)
  show ?case
  proof (cases "col = ''State''")
    case True
    from Cons.prems have "\<exists>df'. clean_numeric_columns cols df = Inr df'"
      by (intro Cons.IH) auto
    with True show ?thesis by simp
  next
    case False
    from Cons.prems(3) obtain j where j: "j < length (columns df)" and cj: "columns df ! j = col"
      by (auto simp: in_set_conv_nth)
    have pos: "positions (columns df) col = [j]"
      using positions_distinct [OF Cons.prems(4) j] cj by simp
    have cells: "\<forall>c\<in>set (column df j). \<exists>t. c = Str t \<and> is_py_float (remove_dollar t)"
      using Cons.prems(5) j cj False by (auto simp: column_def)
    have acc: "list_ex is_Str (column df j) \<or> list_all (\<lambda>c. c = Null) (column df j)"
    proof (cases "column df j")
      case Nil
      then show ?thesis by simp
    next
      case (Cons c cs)
      with cells obtain t where "c = Str t" by auto
      with Cons show ?thesis by simp
    qed
    have "\<forall>c\<in>set (map str_replace_dollar (column df j)). \<exists>v. to_float c = Inr v"
      using cells by auto
    then obtain vs where vs: "astype_float (map str_replace_dollar (column df j)) = Inr vs"
      using astype_float_total by blast
    then have len: "length vs = length (rows df)"
      by (auto dest: astype_float_Inr)
    let ?d = "setitem df j vs"
    have step: "clean_numeric_columns (col # cols) df = clean_numeric_columns cols ?d"
      using False pos acc vs by (simp add: getitem_def str_accessor_def)
    have wf': "wf_frame ?d" using len Cons.prems(1) by (rule setitem_wf)
    have notin: "col \<notin> set cols" using Cons.prems(2) by simp
    have keep: "\<forall>r\<in>set (rows ?d). \<forall>k<length (columns ?d).
           columns ?d ! k \<in> set cols \<longrightarrow> columns ?d ! k \<noteq> ''State'' \<longrightarrow>
           (\<exists>t. cell_at r k = Str t \<and> is_py_float (remove_dollar t))"
    proof (intro ballI allI impI)
      fix r k assume r: "r \<in> set (rows ?d)" and k: "k < length (columns ?d)"
        and m: "columns ?d ! k \<in> set cols" and ns: "columns ?d ! k \<noteq> ''State''"
      from r len obtain n where n: "n < length (rows df)" and rn: "r = rows ?d ! n"
        by (auto simp: in_set_conv_nth)
      from m notin cj have "k \<noteq> j" by auto
      with len n rn have "cell_at r k = cell_at (rows df ! n) k" by (simp add: setitem_cell)
      moreover from n have "rows df ! n \<in> set (rows df)" by simp
      ultimately show "\<exists>t. cell_at r k = Str t \<and> is_py_float (remove_dollar t)"
        using Cons.prems(5) k m ns by auto
    qed
    have "\<exists>df'. clean_numeric_columns cols ?d = Inr df'"
      using wf' Cons.prems(2,3,4) keep by (intro Cons.IH) auto
    with step show ?thesis by simp
  qed
qed

lemma widest_uniform:
  assumes "xss \<noteq> []" "\<forall>r\<in>set xss. length r = n"
  shows "widest xss = n"
  using widest_attained [OF assms(1)] assms(2) by auto

lemma fallback_returns:
  assumes t: "find_tag (BeautifulSoup w html) ''table'' = Some table"
    and d: "distinct (table_headers table)"
    and l: "\<forall>r\<in>set (table_rows table). length r = length (table_headers table)"
    and f: "\<forall>r\<in>set (table_rows table). \<forall>k<length r.
              table_headers table ! k \<noteq> ''State'' \<longrightarrow> is_py_float (remove_dollar (r ! k))"
  shows "\<exists>df. fst (extract_table_manually w html) = Inr df"
proof -
  let ?rows = "table_rows table" and ?hs = "table_headers table"
  let ?df0 = "\<lparr>columns = ?hs, rows = map (map Str) ?rows\<rparr>"
  have D: "DataFrame ?rows ?hs = Inr ?df0"
  proof (cases "?rows = []")
    case True
    then show ?thesis by (simp add: DataFrame_def)
  next
    case False
    from False l have "widest ?rows = length ?hs" by (rule widest_uniform)
    moreover from this l have "\<forall>r\<in>set ?rows. widest ?rows - length r = 0" by simp
    ultimately show ?thesis using False by (simp add: DataFrame_def Let_def)
  qed
  have wf: "wf_frame ?df0" using l by (simp add: wf_frame_def)
  have cells: "\<forall>r\<in>set (rows ?df0). \<forall>k<length (columns ?df0).
           columns ?df0 ! k \<in> set ?hs \<longrightarrow> columns ?df0 ! k \<noteq> ''State'' \<longrightarrow>
           (\<exists>t. cell_at r k = Str t \<and> is_py_float (remove_dollar t))"
    using l f by (auto simp: cell_at_def)
  have "\<exists>df'. clean_numeric_columns ?hs ?df0 = Inr df'"
    using wf d cells by (intro clean_progress) simp_all
  with D show ?thesis by (simp add: manual_cases [OF t])
qed

text \<open>
  C5: every cell of a column not labelled \<^verbatim>\<open>State\<close> whose text is a dollar sign
  followed by a float literal \<open>s\<close> holds, in the table that
  \<^verbatim>\<open>extract_table_manually\<close> returns, the float of \<open>s\<close>: the currency symbol is
  stripped (\<^verbatim>\<open>"$3.459"\<close> gives the float of \<^verbatim>\<open>"3.459"\<close>). And the parser does
  return a table when the header texts are pairwise distinct, every data row has one
  cell per header, and every cell outside the \<^verbatim>\<open>State\<close> column is a float literal
  once its dollar signs are removed.
\<close>

theorem extract_table_manually_strips_dollar:
  assumes "find_tag (BeautifulSoup w html) ''table'' = Some table"
    and "i < length (table_rows table)" and "j < length (table_rows table ! i)"
    and "table_headers table ! j \<noteq> ''State''"
    and "table_rows table ! i ! j = CHR ''$'' # s" and "is_py_float s"
  shows "(\<forall>df. fst (extract_table_manually w html) = Inr df \<longrightarrow> cell_at (rows df ! i) j = Num s)
       \<and> (distinct (table_headers table)
            \<and> (\<forall>r\<in>set (table_rows table). length r = length (table_headers table))
            \<and> (\<forall>r\<in>set (table_rows table). \<forall>k<length r.
                  table_headers table ! k \<noteq> ''State'' \<longrightarrow> is_py_float (remove_dollar (r ! k)))
          \<longrightarrow> (\<exists>df. fst (extract_table_manually w html) = Inr df))"
proof (intro conjI allI impI)
  fix df assume r: "fst (extract_table_manually w html) = Inr df"
  from assms(6) have "CHR ''$'' \<notin> set s" by (rule is_py_float_no_dollar)
  then have "remove_dollar (table_rows table ! i ! j) = s"
    using assms(5) by (simp add: remove_dollar_id)
  with fallback_cell [OF assms(1) r assms(2-4)] show "cell_at (rows df ! i) j = Num s" by simp
next
  assume "distinct (table_headers table)
            \<and> (\<forall>r\<in>set (table_rows table). length r = length (table_headers table))
            \<and> (\<forall>r\<in>set (table_rows table). \<forall>k<length r.
                  table_headers table ! k \<noteq> ''State'' \<longrightarrow> is_py_float (remove_dollar (r ! k)))"
  then show "\<exists>df. fst (extract_table_manually w html) = Inr df"
    using fallback_returns [OF assms(1)] by blast
qed

theorem extract_table_manually_strips_dollar_witness:
  "find_tag (BeautifulSoup (world_page page_prices) []) ''table'' = Some (table_of page_prices)
   \<and> fst (extract_table_manually (world_page page_prices) []) = Inr frame_prices
   \<and> table_headers (table_of page_prices) ! 1 = ''Regular''
   \<and> table_rows (table_of page_prices) ! 0 ! 1 = ''$3.459''
   \<and> is_py_float ''3.459''
   \<and> cell_at (rows frame_prices ! 0) 1 = Num ''3.459''"
proof -
  have h1: "find_tag (BeautifulSoup (world_page page_prices) []) ''table'' = Some (table_of page_prices)"
    by code_simp
  have h2: "fst (extract_table_manually (world_page page_prices) []) = Inr frame_prices"
    by code_simp
  have h3: "0 < length (table_rows (table_of page_prices))" by code_simp
  have h4: "1 < length (table_rows (table_of page_prices) ! 0)" by code_simp
  have h5: "table_headers (table_of page_prices) ! 1 = ''Regular''" by code_simp
  have h5': "table_headers (table_of page_prices) ! 1 \<noteq> ''State''" by code_simp
  have h6: "table_rows (table_of page_prices) ! 0 ! 1 = CHR ''$'' # ''3.459''" by code_simp
  have h7: "is_py_float ''3.459''" by code_simp
  from extract_table_manually_strips_dollar [OF h1 h3 h4 h5' h6 h7] h2
  have "cell_at (rows frame_prices ! 0) 1 = Num ''3.459''" by blast
  with h1 h2 h5 h6 h7 show ?thesis by blast
qed

subsection \<open>The errors of the fallback parser\<close>

lemma astype_float_error: "astype_float cs = Inl e \<Longrightarrow> \<exists>m. e = ValueError m"
proof (induction cs)
  case Nil
  then show ?case by simp
next
  case (Cons c cs)
  show ?case
  proof (cases "to_float c")
    case (Inl e')
    with Cons.prems have "e = e'" by simp
    moreover from Inl have "\<exists>m. e' = ValueError m" by (cases c) (auto split: if_splits)
    ultimately show ?thesis by simp
  next
    case (Inr v)
    with Cons show ?thesis by (auto split: sum.splits)
  qed
qed

lemma clean_error_kind:
  assumes "wf_frame df" "distinct cols" "set cols \<subseteq> set (columns df)" "distinct (columns df)"
    and "\<forall>r\<in>set (rows df). \<forall>k<length (columns df).
           columns df ! k \<in> set cols \<longrightarrow> columns df ! k \<noteq> ''State'' \<longrightarrow> \<not> is_Num (cell_at r k)"
    and "clean_numeric_columns cols df = Inl e"
  shows "\<exists>m. e = ValueError m"
  using assms
proof (induction cols arbitrary: df)
  case Nil
  then show ?case by simp
next
  case (Cons col cols)
  show ?case
  proof (cases "col = ''State''")
    case True
    with Cons.prems have "clean_numeric_columns cols df = Inl e" by simp
    with Cons.prems(1-5) show ?thesis by (intro Cons.IH [of df]) auto
  next
    case False
    from Cons.prems(3) obtain j where j: "j < length (columns df)" and cj: "columns df ! j = col"
      by (auto simp: in_set_conv_nth)
    have pos: "positions (columns df) col = [j]"
      using positions_distinct [OF Cons.prems(4) j] cj by simp
    have cells: "\<forall>c\<in>set (column df j). \<not> is_Num c"
      using Cons.prems(5) j cj False by (auto simp: column_def)
    have acc: "list_ex is_Str (column df j) \<or> list_all (\<lambda>c. c = Null) (column df j)"
    proof (cases "list_ex is_Str (column df j)")
      case True
      then show ?thesis by simp
    next
      case False
      have "\<forall>c\<in>set (column df j). c = Null"
      proof
        fix c assume c: "c \<in> set (column df j)"
        with False have "\<not> is_Str c" by (auto simp: list_ex_iff)
        moreover from c cells have "\<not> is_Num c" by simp
        ultimately show "c = Null" by (cases c) simp_all
      qed
      then show ?thesis by (simp add: list_all_iff)
    qed
    show ?thesis
    proof (cases "astype_float (map str_replace_dollar (column df j))")
      case (Inl e')
      with False pos acc Cons.prems(6) have "e = e'"
        by (simp add: getitem_def str_accessor_def)
      with Inl show ?thesis by (auto dest: astype_float_error)
    next
      case (Inr vs)
      then have len: "length vs = length (rows df)"
        by (auto dest: astype_float_Inr)
      let ?d = "setitem df j vs"
      have step: "clean_numeric_columns cols ?d = Inl e"
        using False pos acc Inr Cons.prems(6) by (simp add: getitem_def str_accessor_def)
      have wf': "wf_frame ?d" using len Cons.prems(1) by (rule setitem_wf)
      have notin: "col \<notin> set cols" using Cons.prems(2) by simp
      have keep: "\<forall>r\<in>set (rows ?d). \<forall>k<length (columns ?d).
           columns ?d ! k \<in> set cols \<longrightarrow> columns ?d ! k \<noteq> ''State'' \<longrightarrow> \<not> is_Num (cell_at r k)"
      proof (intro ballI allI impI)
        fix r k assume r: "r \<in> set (rows ?d)" and k: "k < length (columns ?d)"
          and m: "columns ?d ! k \<in> set cols" and ns: "columns ?d ! k \<noteq> ''State''"
        from r len obtain n where n: "n < length (rows df)" and rn: "r = rows ?d ! n"
          by (auto simp: in_set_conv_nth)
        from m notin cj have "k \<noteq> j" by auto
        with len n rn have "cell_at r k = cell_at (rows df ! n) k" by (simp add: setitem_cell)
        moreover from n have "rows df ! n \<in> set (rows df)" by simp
        ultimately show "\<not> is_Num (cell_at r k)"
          using Cons.prems(5) k m ns by auto
      qed
      show ?thesis
        using wf' Cons.prems(2,3,4) keep step by (intro Cons.IH [of ?d]) auto
    qed
  qed
qed

lemma fallback_error_kind:
  assumes t: "find_tag (BeautifulSoup w html) ''table'' = Some table"
    and d: "distinct (table_headers table)"
    and e: "fst (extract_table_manually w html) = Inl e"
  shows "\<exists>m. e = ValueError m"
proof (cases "DataFrame (table_rows table) (table_headers table)")
  case (Inl e')
  with e have "e = e'" by (simp add: manual_cases [OF t])
  with Inl show ?thesis by (auto simp: DataFrame_def Let_def split: if_splits)
next
  case (Inr df0)
  note f = DataFrame_Inr [OF Inr]
  have wf: "wf_frame df0" using Inr by (rule DataFrame_wf)
  from Inr e have c: "clean_numeric_columns (columns df0) df0 = Inl e"
    by (simp add: manual_cases [OF t])
  have cells: "\<forall>r\<in>set (rows df0). \<forall>k<length (columns df0).
           columns df0 ! k \<in> set (columns df0) \<longrightarrow> columns df0 ! k \<noteq> ''State''
           \<longrightarrow> \<not> is_Num (cell_at r k)"
    using Inr by (auto simp: DataFrame_def Let_def cell_at_def nth_append split: if_splits)
  from wf d f(1) cells c show ?thesis
    by (intro clean_error_kind [of df0 "columns df0"]) simp_all
qed

text \<open>
  C6, as the code has it: when the text of a cell in a column not labelled \<^verbatim>\<open>State\<close>,
  with its dollar signs removed, is not a float literal, \<^verbatim>\<open>extract_table_manually\<close>
  raises: the failure is fatal for the whole table, and no row is returned. The error is
  a \<^verbatim>\<open>ValueError\<close> when the header texts are pairwise distinct.
\<close>

theorem extract_table_manually_non_numeric_fatal:
  assumes "find_tag (BeautifulSoup w html) ''table'' = Some table"
    and "i < length (table_rows table)" and "j < length (table_rows table ! i)"
    and "table_headers table ! j \<noteq> ''State''"
    and "\<not> is_py_float (remove_dollar (table_rows table ! i ! j))"
  shows "\<exists>e. fst (extract_table_manually w html) = Inl e
           \<and> (distinct (table_headers table) \<longrightarrow> (\<exists>m. e = ValueError m))"
proof (cases "fst (extract_table_manually w html)")
  case (Inl e)
  with fallback_error_kind [OF assms(1) _ Inl] show ?thesis by blast
next
  case (Inr df)
  from fallback_cell [OF assms(1) Inr assms(2-4)] assms(5) show ?thesis by simp
qed

theorem extract_table_manually_non_numeric_fatal_witness:
  "find_tag (BeautifulSoup (world_page page_garbage) []) ''table'' = Some (table_of page_garbage)
   \<and> table_headers (table_of page_garbage) = [''State'', ''Regular'']
   \<and> table_rows (table_of page_garbage) ! 1 ! 1 = ''abc''
   \<and> \<not> is_py_float (remove_dollar ''abc'')
   \<and> (\<exists>m. fst (extract_table_manually (world_page page_garbage) []) = Inl (ValueError m))"
proof -
  have h1: "find_tag (BeautifulSoup (world_page page_garbage) []) ''table'' = Some (table_of page_garbage)"
    by code_simp
  have h2: "1 < length (table_rows (table_of page_garbage))" by code_simp
  have h3: "1 < length (table_rows (table_of page_garbage) ! 1)" by code_simp
  have h4: "table_headers (table_of page_garbage) = [''State'', ''Regular'']" by code_simp
  have h4': "table_headers (table_of page_garbage) ! 1 \<noteq> ''State''" by code_simp
  have h5: "table_rows (table_of page_garbage) ! 1 ! 1 = ''abc''" by code_simp
  have h6: "\<not> is_py_float (remove_dollar ''abc'')" by code_simp
  have h6': "\<not> is_py_float (remove_dollar (table_rows (table_of page_garbage) ! 1 ! 1))"
    by code_simp
  have h7: "distinct (table_headers (table_of page_garbage))" by code_simp
  from extract_table_manually_non_numeric_fatal [OF h1 h2 h3 h4' h6'] h7
  have "\<exists>m. fst (extract_table_manually (world_page page_garbage) []) = Inl (ValueError m)"
    by blast
  with h1 h4 h5 h6 show ?thesis by blast
qed

text \<open>
  C6 as stated fails: the row of \<^verbatim>\<open>TX\<close> is well formed, the row of \<^verbatim>\<open>CA\<close> holds
  \<^verbatim>\<open>abc\<close>, and the result is the \<^verbatim>\<open>ValueError\<close>, not a table with the good row.
\<close>

theorem extract_table_manually_row_counterexample:
  "table_rows (table_of page_garbage) = [[''TX'', ''$3.10''], [''CA'', ''abc'']]
   \<and> is_py_float (remove_dollar ''$3.10'')
   \<and> \<not> is_py_float (remove_dollar ''abc'')
   \<and> fst (extract_table_manually (world_page page_garbage) []) = Inl (ValueError ''abc'')"
  by code_simp

subsection \<open>Header cells and row widths\<close>

lemma table_headers_all_th:
  "table_headers table = map (\<lambda>n. strip (get_text n)) (filter (has_name [''th'']) (descendants table))"
  by (simp add: table_headers_def find_all_def)

lemma clean_keeps_null:
  assumes "clean_numeric_columns cols df = Inr df'" "n < length (rows df)"
    "cell_at (rows df ! n) k = Null"
  shows "cell_at (rows df' ! n) k = Null"
  using assms
proof (induction cols arbitrary: df)
  case Nil
  then show ?case by simp
next
  case (Cons col cols)
  show ?case
  proof (cases "col = ''State''")
    case True
    with Cons show ?thesis by simp
  next
    case False
    from Cons.prems(1) False obtain j vs where
      vs: "astype_float (map str_replace_dollar (column df j)) = Inr vs"
      and rest: "clean_numeric_columns cols (setitem df j vs) = Inr df'"
      by (rule clean_step)
    from vs have len: "length vs = length (rows df)"
      and conv: "\<forall>n<length (rows df). to_float (str_replace_dollar (column df j ! n)) = Inr (vs ! n)"
      by (auto dest: astype_float_Inr)
    have "cell_at (rows (setitem df j vs) ! n) k = Null"
    proof (cases "k = j")
      case True
      with Cons.prems(2,3) have "column df j ! n = Null" by (simp add: column_nth)
      with conv Cons.prems(2) have "vs ! n = Null" by auto
      with len Cons.prems(2,3) True show ?thesis by (simp add: setitem_cell)
    next
      case False
      with len Cons.prems(2,3) show ?thesis by (simp add: setitem_cell)
    qed
    with Cons.IH [OF rest] len Cons.prems(2) show ?thesis by simp
  qed
qed

text \<open>
  C10, as the code has it: the column labels of the returned table are the texts of all
  \<^verbatim>\<open>th\<close> elements anywhere below the first table, those inside data rows included.
  The parser raises a \<^verbatim>\<open>ValueError\<close> when some data row has more cells than there are
  \<^verbatim>\<open>th\<close> elements, or when there are data rows and each has fewer cells than that.
  When it returns a table, the table has one row for each data row, and a data row with
  fewer cells than there are \<^verbatim>\<open>th\<close> elements is filled up with missing values.
\<close>

theorem extract_table_manually_header_count:
  assumes "find_tag (BeautifulSoup w html) ''table'' = Some table"
  shows "(\<forall>df. fst (extract_table_manually w html) = Inr df \<longrightarrow>
            columns df = map (\<lambda>n. strip (get_text n)) (filter (has_name [''th'']) (descendants table))
            \<and> length (rows df) = length (table_rows table)
            \<and> (\<forall>n<length (table_rows table). \<forall>k<length (table_headers table).
                  length (table_rows table ! n) \<le> k \<longrightarrow> cell_at (rows df ! n) k = Null))
       \<and> ((\<exists>r\<in>set (table_rows table). length (table_headers table) < length r)
            \<or> table_rows table \<noteq> []
              \<and> (\<forall>r\<in>set (table_rows table). length r < length (table_headers table))
          \<longrightarrow> (\<exists>m. fst (extract_table_manually w html) = Inl (ValueError m)))"
proof (intro conjI allI impI)
  fix df assume r: "fst (extract_table_manually w html) = Inr df"
  from assms r obtain df0 where d: "DataFrame (table_rows table) (table_headers table) = Inr df0"
    and c: "clean_numeric_columns (columns df0) df0 = Inr df"
    by (rule fallback_frame)
  from clean_frame [OF c] DataFrame_Inr(1) [OF d]
  show "columns df = map (\<lambda>n. strip (get_text n)) (filter (has_name [''th'']) (descendants table))"
    by (simp add: table_headers_all_th)
  from clean_frame [OF c] DataFrame_Inr(2) [OF d]
  show "length (rows df) = length (table_rows table)" by simp
  fix n k assume n: "n < length (table_rows table)" and k: "k < length (table_headers table)"
    and short: "length (table_rows table ! n) \<le> k"
  from n have ne: "table_rows table \<noteq> []" by auto
  with d have w: "widest (table_rows table) = length (table_headers table)"
    and rws: "rows df0 = map (\<lambda>r. map Str r @ replicate (widest (table_rows table) - length r) Null)
                 (table_rows table)"
    by (auto simp: DataFrame_def Let_def split: if_splits)
  from n k short w rws have "cell_at (rows df0 ! n) k = Null"
    by (simp add: cell_at_def nth_append)
  moreover from n rws have "n < length (rows df0)" by simp
  ultimately show "cell_at (rows df ! n) k = Null"
    using clean_keeps_null [OF c] by blast
next
  assume a: "(\<exists>r\<in>set (table_rows table). length (table_headers table) < length r)
            \<or> table_rows table \<noteq> []
              \<and> (\<forall>r\<in>set (table_rows table). length r < length (table_headers table))"
  have ne: "table_rows table \<noteq> []" using a by auto
  have "length (table_headers table) \<noteq> widest (table_rows table)"
    using a
  proof
    assume "\<exists>r\<in>set (table_rows table). length (table_headers table) < length r"
    then obtain r where "r \<in> set (table_rows table)" "length (table_headers table) < length r"
      by blast
    with widest_ge [of r "table_rows table"] show ?thesis by simp
  next
    assume b: "table_rows table \<noteq> []
              \<and> (\<forall>r\<in>set (table_rows table). length r < length (table_headers table))"
    with widest_attained [of "table_rows table"]
    obtain r where "r \<in> set (table_rows table)" "length r = widest (table_rows table)" by blast
    with b show ?thesis by auto
  qed
  with ne have "DataFrame (table_rows table) (table_headers table)
      = Inl (ValueError ''columns passed do not match the data'')"
    by (simp add: DataFrame_def Let_def)
  then show "\<exists>m. fst (extract_table_manually w html) = Inl (ValueError m)"
    by (simp add: manual_cases [OF assms])
qed

theorem extract_table_manually_header_count_witness:
  "find_tag (BeautifulSoup (world_page page_row_header) []) ''table'' = Some (table_of page_row_header)
   \<and> table_headers (table_of page_row_header) = [''State'', ''Regular'', ''TX'']
   \<and> table_rows (table_of page_row_header) = [[''TX'', ''$3.10'']]
   \<and> (\<exists>m. fst (extract_table_manually (world_page page_row_header) []) = Inl (ValueError m))"
proof -
  have h1: "find_tag (BeautifulSoup (world_page page_row_header) []) ''table''
      = Some (table_of page_row_header)"
    by code_simp
  have h2: "table_headers (table_of page_row_header) = [''State'', ''Regular'', ''TX'']"
    by code_simp
  have h3: "table_rows (table_of page_row_header) = [[''TX'', ''$3.10'']]"
    by code_simp
  have h4: "table_rows (table_of page_row_header) \<noteq> []
      \<and> (\<forall>r\<in>set (table_rows (table_of page_row_header)).
            length r < length (table_headers (table_of page_row_header)))"
    unfolding h2 h3 by simp
  from extract_table_manually_header_count [OF h1] h4
  have "\<exists>m. fst (extract_table_manually (world_page page_row_header) []) = Inl (ValueError m)"
    by blast
  with h1 h2 h3 show ?thesis by blast
qed

text \<open>
  C10 as stated fails: the table has two \<^verbatim>\<open>th\<close> elements and a data row with one cell,
  and the parser returns a table, the short row padded with a missing value.
\<close>

theorem extract_table_manually_ragged_counterexample:
  "length (table_headers (table_of page_ragged)) = 2
   \<and> map length (table_rows (table_of page_ragged)) = [2, 1]
   \<and> fst (extract_table_manually (world_page page_ragged) []) = Inr frame_ragged"
  by code_simp

section \<open>The merger\<close>

lemma strip_head:
  assumes "strip s \<noteq> []"
  shows "\<not> is_space (hd (strip s))"
proof -
  let ?u = "dropWhile is_space s"
  let ?v = "dropWhile is_space (rev ?u)"
  have t: "strip s = rev ?v" by (simp add: strip_def)
  have "?u = rev (takeWhile is_space (rev ?u) @ ?v)"
    by (simp only: takeWhile_dropWhile_id rev_rev_ident)
  then have u: "?u = strip s @ rev (takeWhile is_space (rev ?u))"
    by (simp only: rev_append t [symmetric])
  from assms u have "?u \<noteq> []" by (metis append_is_Nil_conv)
  then have "\<not> is_space (hd ?u)" by (rule hd_dropWhile)
  moreover from u assms have "hd ?u = hd (strip s)" by (metis hd_append2)
  ultimately show ?thesis by simp
qed

lemma strip_idem: "strip (strip s) = strip s"
proof (cases "strip s = []")
  case True
  have "strip [] = []" by (simp add: strip_def)
  with True show ?thesis by (simp only:)
next
  case False
  let ?v = "dropWhile is_space (rev (dropWhile is_space s))"
  have t: "strip s = rev ?v" by (simp add: strip_def)
  from False have "\<not> is_space (hd (strip s))" by (rule strip_head)
  with False have a: "dropWhile is_space (strip s) = strip s"
    by (cases "strip s") auto
  from False t have "?v \<noteq> []" by simp
  then have "\<not> is_space (hd ?v)" by (rule hd_dropWhile)
  then have b: "dropWhile is_space ?v = ?v" by (cases ?v) auto
  have "strip (strip s) = rev (dropWhile is_space (rev (strip s)))"
    unfolding strip_def [of "strip s"] a ..
  also have "\<dots> = rev (dropWhile is_space ?v)" by (simp add: t)
  also have "\<dots> = strip s" by (simp add: b t)
  finally show ?thesis .
qed

lemma str_strip_idem: "str_strip (str_strip c) = str_strip c"
  by (cases c) (simp_all add: strip_idem)

lemma cell_at_trim_same: "cell_at (trim_at j r) j = str_strip (cell_at r j)"
  by (simp add: trim_at_def cell_at_def)

lemma cell_at_trim_other: "k \<noteq> j \<Longrightarrow> cell_at (trim_at j r) k = cell_at r k"
  by (simp add: trim_at_def cell_at_def)

lemma length_trim_at [simp]: "length (trim_at j r) = length r"
  by (simp add: trim_at_def)

lemma trim_at_idem: "trim_at j (trim_at j r) = trim_at j r"
  by (simp add: trim_at_def cell_at_def str_strip_idem)

lemma setitem_strip_rows:
  "rows (setitem df j (map str_strip (column df j))) = map (trim_at j) (rows df)"
  by (simp add: setitem_def column_def trim_at_def zip_map2 zip_same_conv_map)

lemma strip_state_Inr:
  assumes "strip_state df = Inr df'"
  obtains j where "positions (columns df) ''State'' = [j]"
    and "columns df' = columns df" and "rows df' = map (trim_at j) (rows df)"
  using assms
  by (auto simp: strip_state_def getitem_def str_accessor_def setitem_strip_rows
      split: sum.splits list.splits selection.splits if_splits prod.splits)

lemma strip_state_again:
  assumes "strip_state df = Inr df'" "strip_state df' = Inr df''"
  shows "df'' = df'"
proof -
  from assms(1) obtain j where j: "positions (columns df) ''State'' = [j]"
    and c: "columns df' = columns df" and r: "rows df' = map (trim_at j) (rows df)"
    by (rule strip_state_Inr)
  from assms(2) obtain k where k: "positions (columns df') ''State'' = [k]"
    and c': "columns df'' = columns df'" and r': "rows df'' = map (trim_at k) (rows df')"
    by (rule strip_state_Inr)
  from j k c have "k = j" by simp
  with r r' have "rows df'' = rows df'" by (simp add: trim_at_idem)
  with c' show ?thesis by simp
qed

lemma merge_data_Inr:
  assumes "merge_data h g e = (Inr m, h')"
  obtains L R where "strip_state (h g) = Inr L" and "strip_state ((h(g := L)) e) = Inr R"
    and "h' = (h(g := L))(e := R)" and "pd_merge (h' g) (h' e) ''State'' = Inr m"
  using assms by (auto simp: merge_data_def Let_def split: sum.splits)

lemma merge_data_tables:
  assumes "merge_data h g e = (Inr m, h')"
  obtains i j where "positions (columns (h g)) ''State'' = [i]"
    and "positions (columns (h e)) ''State'' = [j]"
    and "columns (h' g) = columns (h g)" and "rows (h' g) = map (trim_at i) (rows (h g))"
    and "columns (h' e) = columns (h e)" and "rows (h' e) = map (trim_at j) (rows (h e))"
    and "pd_merge (h' g) (h' e) ''State'' = Inr m"
proof -
  from assms obtain L R where L: "strip_state (h g) = Inr L"
    and R: "strip_state ((h(g := L)) e) = Inr R"
    and h': "h' = (h(g := L))(e := R)" and m: "pd_merge (h' g) (h' e) ''State'' = Inr m"
    by (rule merge_data_Inr)
  from L obtain i where i: "positions (columns (h g)) ''State'' = [i]"
    and Lc: "columns L = columns (h g)" and Lr: "rows L = map (trim_at i) (rows (h g))"
    by (rule strip_state_Inr)
  show ?thesis
  proof (cases "g = e")
    case True
    with R have "strip_state L = Inr R" by simp
    with L have "R = L" by (rule strip_state_again)
    with True h' have "h' g = L" "h' e = L" by simp_all
    with True i Lc Lr m that [of i i] show ?thesis by simp
  next
    case False
    with R have "strip_state (h e) = Inr R" by simp
    then obtain j where j: "positions (columns (h e)) ''State'' = [j]"
      and Rc: "columns R = columns (h e)" and Rr: "rows R = map (trim_at j) (rows (h e))"
      by (rule strip_state_Inr)
    from False h' have "h' g = L" "h' e = R" by simp_all
    with i j Lc Lr Rc Rr m that [of i j] show ?thesis by simp
  qed
qed

lemma pd_merge_rows:
  assumes "pd_merge l r key = Inr m" "positions (columns l) key = [i]"
    "positions (columns r) key = [j]"
  shows "rows m = concat (map (join_row (rows r) i j (length (columns r) - 1)) (rows l))"
proof -
  from assms(3) have "j < length (columns r)" by (auto dest: positions_single)
  then have "length (remove_nth j (columns r)) = length (columns r) - 1"
    by (auto simp: remove_nth_def)
  with assms show ?thesis
    by (auto simp: pd_merge_def Let_def split: if_splits)
qed

lemma filter_distinct_le1:
  "distinct (map f xs) \<Longrightarrow> length (filter (\<lambda>x. f x = k) xs) \<le> 1"
proof (induction xs)
  case Nil
  then show ?case by simp
next
  case (Cons a xs)
  show ?case
  proof (cases "f a = k")
    case True
    with Cons.prems have "\<forall>x\<in>set xs. f x \<noteq> k" by (auto simp: image_iff)
    then have "filter (\<lambda>x. f x = k) xs = []" by (simp add: filter_empty_conv)
    with True show ?thesis by simp
  next
    case False
    with Cons show ?thesis by simp
  qed
qed

lemma length_concat_singletons:
  "\<forall>x\<in>set xs. length (F x) = 1 \<Longrightarrow> length (concat (map F xs)) = length xs"
  by (induction xs) simp_all

lemma join_row_one:
  assumes "distinct (map (\<lambda>rrow. cell_at rrow j) rrows)"
  shows "length (join_row rrows i j w lrow) = 1"
proof -
  let ?p = "filter (\<lambda>rrow. cell_at rrow j = cell_at lrow i) rrows"
  from assms have "length ?p \<le> 1" by (rule filter_distinct_le1)
  then have "?p = [] \<or> length ?p = 1"
    by (cases ?p) simp_all
  then show ?thesis
    by (auto simp: join_row_def Let_def)
qed

lemma join_row_length:
  "length (join_row rrows i j w lrow)
     = max 1 (length (filter (\<lambda>rrow. cell_at rrow j = cell_at lrow i) rrows))"
proof (cases "filter (\<lambda>rrow. cell_at rrow j = cell_at lrow i) rrows")
  case Nil
  then show ?thesis by (simp add: join_row_def)
next
  case (Cons a as)
  then show ?thesis by (simp add: join_row_def)
qed

lemma length_concat_map: "length (concat (map F xs)) = sum_list (map (\<lambda>x. length (F x)) xs)"
  by (induction xs) simp_all

text \<open>
  C2, as the code has it: when \<^verbatim>\<open>merge_data\<close> returns a table, every left row
  contributes one output row for each right row with the same trimmed region
  identifier, and one output row when there is none. So the output has exactly as many
  rows as the left table when the trimmed region identifiers of the right table are
  pairwise distinct.
\<close>

theorem merge_data_row_count:
  assumes "merge_data h gas_df ev_df = (Inr merged, h')"
    and "positions (columns (h gas_df)) ''State'' = [i]"
    and "positions (columns (h ev_df)) ''State'' = [j]"
  shows "length (rows merged)
           = sum_list (map (\<lambda>lrow. max 1 (length (filter
                 (\<lambda>rrow. str_strip (cell_at rrow j) = str_strip (cell_at lrow i))
                 (rows (h ev_df))))) (rows (h gas_df)))
       \<and> (distinct (map str_strip (column (h ev_df) j))
            \<longrightarrow> length (rows merged) = length (rows (h gas_df)))"
proof -
  from assms(1) obtain i' j' where i': "positions (columns (h gas_df)) ''State'' = [i']"
    and j': "positions (columns (h ev_df)) ''State'' = [j']"
    and gc: "columns (h' gas_df) = columns (h gas_df)"
    and gr: "rows (h' gas_df) = map (trim_at i') (rows (h gas_df))"
    and ec: "columns (h' ev_df) = columns (h ev_df)"
    and er: "rows (h' ev_df) = map (trim_at j') (rows (h ev_df))"
    and m: "pd_merge (h' gas_df) (h' ev_df) ''State'' = Inr merged"
    by (rule merge_data_tables)
  from i' j' assms(2,3) have ii: "i' = i" and jj: "j' = j" by simp_all
  have rws: "rows merged = concat (map (join_row (rows (h' ev_df)) i j
      (length (columns (h' ev_df)) - 1)) (rows (h' gas_df)))"
    using m assms(2,3) by (intro pd_merge_rows) (simp_all add: gc ec)
  have partners: "length (filter (\<lambda>rrow. cell_at rrow j = cell_at (trim_at i lrow) i)
        (rows (h' ev_df)))
      = length (filter (\<lambda>rrow. str_strip (cell_at rrow j) = str_strip (cell_at lrow i))
        (rows (h ev_df)))" for lrow
    by (simp add: er jj filter_map comp_def cell_at_trim_same)
  have count: "length (rows merged)
           = sum_list (map (\<lambda>lrow. max 1 (length (filter
                 (\<lambda>rrow. str_strip (cell_at rrow j) = str_strip (cell_at lrow i))
                 (rows (h ev_df))))) (rows (h gas_df)))"
    unfolding rws length_concat_map
    by (simp add: gr ii comp_def join_row_length partners)
  have "length (rows merged) = length (rows (h gas_df))"
    if d: "distinct (map str_strip (column (h ev_df) j))"
  proof -
    have keys: "map (\<lambda>rrow. cell_at rrow j) (rows (h' ev_df)) = map str_strip (column (h ev_df) j)"
      by (simp add: er jj column_def cell_at_trim_same)
    have "length (rows merged) = length (rows (h' gas_df))"
      unfolding rws
      by (rule length_concat_singletons) (simp add: join_row_one keys d)
    then show ?thesis by (simp add: gr)
  qed
  with count show ?thesis by blast
qed

theorem merge_data_row_count_witness:
  "fst (merge_data (two_tables fuel_ca ev_ca) 0 1) = Inr merged_ca
   \<and> positions (columns (two_tables fuel_ca ev_ca 0)) ''State'' = [0]
   \<and> positions (columns (two_tables fuel_ca ev_ca 1)) ''State'' = [0]
   \<and> distinct (map str_strip (column (two_tables fuel_ca ev_ca 1) 0))
   \<and> length (rows merged_ca) = length (rows (two_tables fuel_ca ev_ca 0))"
proof -
  have h1: "fst (merge_data (two_tables fuel_ca ev_ca) 0 1) = Inr merged_ca" by code_simp
  then have h1': "merge_data (two_tables fuel_ca ev_ca) 0 1
      = (Inr merged_ca, snd (merge_data (two_tables fuel_ca ev_ca) 0 1))"
    by (simp add: prod_eq_iff)
  have h2: "positions (columns (two_tables fuel_ca ev_ca 0)) ''State'' = [0]" by code_simp
  have h3: "positions (columns (two_tables fuel_ca ev_ca 1)) ''State'' = [0]" by code_simp
  have h4: "distinct (map str_strip (column (two_tables fuel_ca ev_ca 1) 0))" by code_simp
  from merge_data_row_count [OF h1' h2 h3] h4
  have "length (rows merged_ca) = length (rows (two_tables fuel_ca ev_ca 0))" by blast
  with h1 h2 h3 h4 show ?thesis by blast
qed

text \<open>
  C2 as stated fails: the right table names \<^verbatim>\<open>TX\<close> twice (once followed by a
  no-break space, which the trimming removes), and the one row of the left table comes
  out twice.
\<close>

theorem merge_data_duplicate_counterexample:
  "length (rows (two_tables fuel_tx ev_duplicate 0)) = 1
   \<and> fst (merge_data (two_tables fuel_tx ev_duplicate) 0 1) = Inr merged_duplicate
   \<and> length (rows merged_duplicate) = 2"
  by code_simp

lemma join_row_unmatched:
  assumes "\<forall>rrow\<in>set rrows. cell_at rrow j \<noteq> cell_at lrow i"
  shows "join_row rrows i j w lrow = [lrow @ replicate w Null]"
proof -
  from assms have "filter (\<lambda>rrow. cell_at rrow j = cell_at lrow i) rrows = []"
    by (simp add: filter_empty_conv)
  then show ?thesis by (simp add: join_row_def)
qed

lemma join_row_mem:
  assumes "row \<in> set (join_row rrows i j w lrow)"
  shows "row = lrow @ replicate w Null
       \<or> (\<exists>rrow\<in>set rrows. cell_at rrow j = cell_at lrow i \<and> row = lrow @ remove_nth j rrow)"
  using assms by (auto simp: join_row_def Let_def split: if_splits)

text \<open>
  C3: in the table that \<^verbatim>\<open>merge_data\<close> returns, every left row whose trimmed region
  identifier matches no right row appears with its identifier trimmed and a missing
  value in each right-side column; and every row of the output is a left row, followed
  either by missing values or by the fields of a right row of the same region, so a
  region that only the right table has does not appear.
\<close>

theorem merge_data_left_join:
  assumes "merge_data h gas_df ev_df = (Inr merged, h')"
    and "positions (columns (h gas_df)) ''State'' = [i]"
    and "positions (columns (h ev_df)) ''State'' = [j]"
  shows "(\<forall>lrow\<in>set (rows (h gas_df)).
            (\<forall>rrow\<in>set (rows (h ev_df)). str_strip (cell_at rrow j) \<noteq> str_strip (cell_at lrow i))
            \<longrightarrow> trim_at i lrow @ replicate (length (columns (h ev_df)) - 1) Null \<in> set (rows merged))
       \<and> (\<forall>row\<in>set (rows merged). \<exists>lrow\<in>set (rows (h gas_df)).
            row = trim_at i lrow @ replicate (length (columns (h ev_df)) - 1) Null
            \<or> (\<exists>rrow\<in>set (rows (h ev_df)).
                  str_strip (cell_at rrow j) = str_strip (cell_at lrow i)
                  \<and> row = trim_at i lrow @ remove_nth j (trim_at j rrow)))"
proof -
  from assms(1) obtain i' j' where i': "positions (columns (h gas_df)) ''State'' = [i']"
    and j': "positions (columns (h ev_df)) ''State'' = [j']"
    and gc: "columns (h' gas_df) = columns (h gas_df)"
    and gr: "rows (h' gas_df) = map (trim_at i') (rows (h gas_df))"
    and ec: "columns (h' ev_df) = columns (h ev_df)"
    and er: "rows (h' ev_df) = map (trim_at j') (rows (h ev_df))"
    and m: "pd_merge (h' gas_df) (h' ev_df) ''State'' = Inr merged"
    by (rule merge_data_tables)
  from i' j' assms(2,3) have ii: "i' = i" and jj: "j' = j" by simp_all
  let ?w = "length (columns (h ev_df)) - 1"
  let ?R = "map (trim_at j) (rows (h ev_df))"
  have rws: "rows merged = concat (map (join_row ?R i j ?w) (map (trim_at i) (rows (h gas_df))))"
    using pd_merge_rows [OF m, of i j] assms(2,3) by (simp add: gc ec gr er ii jj)
  show ?thesis
  proof (intro conjI ballI impI)
    fix lrow
    assume l: "lrow \<in> set (rows (h gas_df))"
      and un: "\<forall>rrow\<in>set (rows (h ev_df)). str_strip (cell_at rrow j) \<noteq> str_strip (cell_at lrow i)"
    from un have "\<forall>rrow\<in>set ?R. cell_at rrow j \<noteq> cell_at (trim_at i lrow) i"
      by (auto simp: cell_at_trim_same)
    then have "join_row ?R i j ?w (trim_at i lrow) = [trim_at i lrow @ replicate ?w Null]"
      by (rule join_row_unmatched)
    with l show "trim_at i lrow @ replicate ?w Null \<in> set (rows merged)"
      unfolding rws by force
  next
    fix row
    assume "row \<in> set (rows merged)"
    then obtain lrow where l: "lrow \<in> set (rows (h gas_df))"
      and r: "row \<in> set (join_row ?R i j ?w (trim_at i lrow))"
      unfolding rws by auto
    from join_row_mem [OF r]
    have "row = trim_at i lrow @ replicate ?w Null
       \<or> (\<exists>rrow\<in>set (rows (h ev_df)).
             str_strip (cell_at rrow j) = str_strip (cell_at lrow i)
             \<and> row = trim_at i lrow @ remove_nth j (trim_at j rrow))"
      by (auto simp: cell_at_trim_same)
    with l show "\<exists>lrow\<in>set (rows (h gas_df)).
            row = trim_at i lrow @ replicate ?w Null
            \<or> (\<exists>rrow\<in>set (rows (h ev_df)).
                  str_strip (cell_at rrow j) = str_strip (cell_at lrow i)
                  \<and> row = trim_at i lrow @ remove_nth j (trim_at j rrow))"
      by blast
  qed
qed

theorem merge_data_left_join_witness:
  "fst (merge_data (two_tables fuel_tx ev_empty) 0 1) = Inr merged_tx
   \<and> positions (columns (two_tables fuel_tx ev_empty 0)) ''State'' = [0]
   \<and> positions (columns (two_tables fuel_tx ev_empty 1)) ''State'' = [0]
   \<and> rows (two_tables fuel_tx ev_empty 0) = [[Str ''TX'', Num ''3.10'']]
   \<and> rows (two_tables fuel_tx ev_empty 1) = []
   \<and> trim_at 0 [Str ''TX'', Num ''3.10''] @ [Null] \<in> set (rows merged_tx)"
proof -
  let ?h = "two_tables fuel_tx ev_empty"
  have h1: "fst (merge_data ?h 0 1) = Inr merged_tx" by code_simp
  then have h1': "merge_data ?h 0 1 = (Inr merged_tx, snd (merge_data ?h 0 1))"
    by (simp add: prod_eq_iff)
  have h2: "positions (columns (?h 0)) ''State'' = [0]" by code_simp
  have h3: "positions (columns (?h 1)) ''State'' = [0]" by code_simp
  have h4: "rows (?h 0) = [[Str ''TX'', Num ''3.10'']]" by code_simp
  have h5: "rows (?h 1) = []" by code_simp
  have h6: "replicate (length (columns (?h 1)) - 1) Null = [Null]" by code_simp
  from merge_data_left_join [OF h1' h2 h3]
  have "\<forall>lrow\<in>set (rows (?h 0)).
          (\<forall>rrow\<in>set (rows (?h 1)). str_strip (cell_at rrow 0) \<noteq> str_strip (cell_at lrow 0))
          \<longrightarrow> trim_at 0 lrow @ replicate (length (columns (?h 1)) - 1) Null \<in> set (rows merged_tx)"
    by blast
  then have "trim_at 0 [Str ''TX'', Num ''3.10''] @ [Null] \<in> set (rows merged_tx)"
    unfolding h4 h5 h6 by simp
  with h1 h2 h3 h4 h5 show ?thesis by blast
qed

lemma unchanged_refl: "unchanged_outside_state df df"
  by (simp add: unchanged_outside_state_def)

lemma unchanged_trans:
  assumes "unchanged_outside_state a b" "unchanged_outside_state b c"
  shows "unchanged_outside_state a c"
proof -
  from assms have "length (rows b) = length (rows a)"
    unfolding unchanged_outside_state_def by (metis length_map)
  with assms show ?thesis
    by (simp add: unchanged_outside_state_def)
qed

lemma strip_state_unchanged:
  assumes "strip_state df = Inr df'"
  shows "unchanged_outside_state df df'"
proof -
  from assms obtain j where j: "positions (columns df) ''State'' = [j]"
    and c: "columns df' = columns df" and r: "rows df' = map (trim_at j) (rows df)"
    by (rule strip_state_Inr)
  from j have "columns df ! j = ''State''" by (auto dest: positions_single)
  then have "\<forall>k. columns df ! k \<noteq> ''State'' \<longrightarrow> k \<noteq> j" by auto
  with c r show ?thesis
    by (simp add: unchanged_outside_state_def cell_at_trim_other comp_def)
qed

lemma merge_data_heap:
  assumes "merge_data h g e = (r, h')"
  shows "h' = h
       \<or> (\<exists>L. strip_state (h g) = Inr L \<and> h' = h(g := L))
       \<or> (\<exists>L R. strip_state (h g) = Inr L \<and> strip_state ((h(g := L)) e) = Inr R
                 \<and> h' = (h(g := L))(e := R))"
  using assms by (auto simp: merge_data_def Let_def split: sum.splits)

text \<open>
  C8, as the code has it: \<^verbatim>\<open>merge_data\<close> leaves every object but its two inputs as it
  was, and in its inputs the labels, the shape and every column not labelled
  \<^verbatim>\<open>State\<close>; but it replaces the \<^verbatim>\<open>State\<close> column of both inputs in place by the
  trimmed values. The merged table is a new object.
\<close>

theorem merge_data_mutation:
  assumes "merge_data h gas_df ev_df = (r, h')"
  shows "(\<forall>x. x \<noteq> gas_df \<and> x \<noteq> ev_df \<longrightarrow> h' x = h x)
       \<and> (\<forall>x. unchanged_outside_state (h x) (h' x))
       \<and> (\<forall>m. r = Inr m \<longrightarrow>
            (\<exists>i. positions (columns (h gas_df)) ''State'' = [i]
                  \<and> rows (h' gas_df) = map (trim_at i) (rows (h gas_df)))
          \<and> (\<exists>j. positions (columns (h ev_df)) ''State'' = [j]
                  \<and> rows (h' ev_df) = map (trim_at j) (rows (h ev_df))))"
proof (intro conjI allI impI)
  fix x assume "x \<noteq> gas_df \<and> x \<noteq> ev_df"
  with merge_data_heap [OF assms] show "h' x = h x" by auto
next
  fix x
  from merge_data_heap [OF assms]
  show "unchanged_outside_state (h x) (h' x)"
  proof (elim disjE exE conjE)
    assume "h' = h"
    then show ?thesis by (simp add: unchanged_refl)
  next
    fix L assume "strip_state (h gas_df) = Inr L" "h' = h(gas_df := L)"
    then show ?thesis by (simp add: unchanged_refl strip_state_unchanged)
  next
    fix L R assume L: "strip_state (h gas_df) = Inr L"
      and R: "strip_state ((h(gas_df := L)) ev_df) = Inr R"
      and h': "h' = (h(gas_df := L))(ev_df := R)"
    have a: "unchanged_outside_state (h gas_df) L" using L by (rule strip_state_unchanged)
    have b: "unchanged_outside_state ((h(gas_df := L)) ev_df) R"
      using R by (rule strip_state_unchanged)
    show ?thesis
    proof (cases "x = ev_df")
      case True
      show ?thesis
      proof (cases "ev_df = gas_df")
        case True
        with b have "unchanged_outside_state L R" by simp
        with a have "unchanged_outside_state (h gas_df) R" by (rule unchanged_trans)
        with True \<open>x = ev_df\<close> h' show ?thesis by simp
      next
        case False
        with b have "unchanged_outside_state (h ev_df) R" by simp
        with True h' show ?thesis by simp
      qed
    next
      case False
      with h' a show ?thesis by (simp add: unchanged_refl)
    qed
  qed
next
  fix m assume "r = Inr m"
  with assms have "merge_data h gas_df ev_df = (Inr m, h')" by simp
  then obtain i j where "positions (columns (h gas_df)) ''State'' = [i]"
    "positions (columns (h ev_df)) ''State'' = [j]"
    "rows (h' gas_df) = map (trim_at i) (rows (h gas_df))"
    "rows (h' ev_df) = map (trim_at j) (rows (h ev_df))"
    by (rule merge_data_tables)
  then show "\<exists>i. positions (columns (h gas_df)) ''State'' = [i]
                  \<and> rows (h' gas_df) = map (trim_at i) (rows (h gas_df))"
    and "\<exists>j. positions (columns (h ev_df)) ''State'' = [j]
                  \<and> rows (h' ev_df) = map (trim_at j) (rows (h ev_df))"
    by blast+
qed

theorem merge_data_mutation_witness:
  "fst (merge_data (two_tables fuel_untrimmed ev_empty) 0 1) = Inr merged_tx
   \<and> positions (columns (two_tables fuel_untrimmed ev_empty 0)) ''State'' = [0]
   \<and> rows (snd (merge_data (two_tables fuel_untrimmed ev_empty) 0 1) 0)
       = map (trim_at 0) (rows (two_tables fuel_untrimmed ev_empty 0))
   \<and> unchanged_outside_state (two_tables fuel_untrimmed ev_empty 0)
        (snd (merge_data (two_tables fuel_untrimmed ev_empty) 0 1) 0)
   \<and> snd (merge_data (two_tables fuel_untrimmed ev_empty) 0 1) 2
       = two_tables fuel_untrimmed ev_empty 2"
proof -
  let ?h = "two_tables fuel_untrimmed ev_empty"
  have h1: "fst (merge_data ?h 0 1) = Inr merged_tx" by code_simp
  then have h1': "merge_data ?h 0 1 = (Inr merged_tx, snd (merge_data ?h 0 1))"
    by (simp add: prod_eq_iff)
  have h2: "positions (columns (?h 0)) ''State'' = [0]" by code_simp
  note t = merge_data_mutation [OF h1']
  from t have a: "snd (merge_data ?h 0 1) 2 = ?h 2" by simp
  from t have b: "unchanged_outside_state (?h 0) (snd (merge_data ?h 0 1) 0)" by blast
  from t obtain i where "positions (columns (?h 0)) ''State'' = [i]"
    and "rows (snd (merge_data ?h 0 1) 0) = map (trim_at i) (rows (?h 0))" by blast
  with h2 have c: "rows (snd (merge_data ?h 0 1) 0) = map (trim_at 0) (rows (?h 0))" by simp
  from h1 h2 a b c show ?thesis by blast
qed

text \<open>
  C8 as stated fails: after the call the caller's fuel table holds \<^verbatim>\<open>TX\<close> where it
  held the identifier with blanks around it.
\<close>

theorem merge_data_mutation_counterexample:
  "rows (two_tables fuel_untrimmed ev_empty 0) = [[Str '' TX '', Num ''3.10'']]
   \<and> rows (snd (merge_data (two_tables fuel_untrimmed ev_empty) 0 1) 0)
       = [[Str ''TX'', Num ''3.10'']]"
  by code_simp

section \<open>The primary extraction path\<close>

lemma clean_state_Inr:
  assumes "clean_state w d = Inr df"
  obtains j where "positions (columns d) ''State'' = [j]" and "columns df = columns d"
    and "rows df = map (\<lambda>r. r[j := str_strip (astype_str w (cell_at r j))]) (rows d)"
  using assms
  by (auto simp: clean_state_def getitem_def str_accessor_def setitem_def column_def
        zip_map2 zip_same_conv_map comp_def
      split: sum.splits list.splits selection.splits if_splits prod.splits)

lemma try_cases:
  assumes "read_html w html = Inr (df0 # others)"
  shows "extract_table_data_try w html =
     (let df = df0\<lparr>columns := map strip (columns df0)\<rparr>
      in if ''State'' \<in> set (columns df) then clean_state w df
         else if length (columns df) > 0
           then clean_state w (rename df (hd (columns df)) ''State'')
         else Inr df)"
  using assms by (simp add: extract_table_data_try_def)

lemma renamed_first:
  assumes "cols \<noteq> []"
    and "positions (map (\<lambda>c. if c = hd cols then ''State'' else c) cols) ''State'' = [j]"
  shows "j = 0 \<and> map (\<lambda>c. if c = hd cols then ''State'' else c) cols = ''State'' # tl cols"
proof -
  let ?r = "map (\<lambda>c. if c = hd cols then ''State'' else c) cols"
  from assms(2) have u: "\<forall>k<length ?r. ?r ! k = ''State'' \<longrightarrow> k = j"
    by (auto dest: positions_single)
  from assms(1) have z: "?r ! 0 = ''State''" by (cases cols) simp_all
  from assms(1) u z have j: "j = 0" by (cases cols) auto
  have "?r = ''State'' # tl cols"
  proof (rule nth_equalityI)
    show "length ?r = length (''State'' # tl cols)" using assms(1) by (cases cols) simp_all
  next
    fix k assume k: "k < length ?r"
    show "?r ! k = (''State'' # tl cols) ! k"
    proof (cases k)
      case 0
      with z show ?thesis by simp
    next
      case (Suc n)
      with u k j have "?r ! k \<noteq> ''State''" by auto
      with k have "cols ! k \<noteq> hd cols" by (auto split: if_splits)
      with k have "?r ! k = cols ! k" by simp
      also have "\<dots> = (''State'' # tl cols) ! k" using Suc assms(1) k
        by (cases cols) simp_all
      finally show ?thesis .
    qed
  qed
  with j show ?thesis by simp
qed

text \<open>
  C7: when the primary path (the \<^verbatim>\<open>try\<close> block of \<^verbatim>\<open>extract_table_data\<close>) returns the
  first table that \<^verbatim>\<open>read_html\<close> found, and that table has at least one column, then
  \<^verbatim>\<open>extract_table_data\<close> returns that table without a further message,
  its labels are the trimmed labels, with the first one replaced by \<^verbatim>\<open>State\<close> when no
  trimmed label is \<^verbatim>\<open>State\<close>; the values of the \<^verbatim>\<open>State\<close> column are turned into
  text by \<^verbatim>\<open>astype(str)\<close> and trimmed; and the table carries the \<^verbatim>\<open>State\<close> column, exactly once.
\<close>

theorem extract_table_data_try_normalizes:
  assumes "read_html w html = Inr (df0 # others)"
    and "extract_table_data_try w html = Inr df"
    and "columns df0 \<noteq> []"
  shows "extract_table_data w html = (Inr df, [])
       \<and> (\<exists>j. positions (columns df) ''State'' = [j]
           \<and> columns df = (if ''State'' \<in> set (map strip (columns df0)) then map strip (columns df0)
                           else ''State'' # tl (map strip (columns df0)))
           \<and> (''State'' \<notin> set (map strip (columns df0)) \<longrightarrow> j = 0)
           \<and> rows df = map (\<lambda>r. r[j := str_strip (astype_str w (cell_at r j))]) (rows df0))"
proof
  show "extract_table_data w html = (Inr df, [])"
    using assms(2) by (simp add: extract_table_data_def)
next
  show "\<exists>j. positions (columns df) ''State'' = [j]
           \<and> columns df = (if ''State'' \<in> set (map strip (columns df0)) then map strip (columns df0)
                           else ''State'' # tl (map strip (columns df0)))
           \<and> (''State'' \<notin> set (map strip (columns df0)) \<longrightarrow> j = 0)
           \<and> rows df = map (\<lambda>r. r[j := str_strip (astype_str w (cell_at r j))]) (rows df0)"
  proof (cases "''State'' \<in> set (map strip (columns df0))")
    case True
    let ?d = "df0\<lparr>columns := map strip (columns df0)\<rparr>"
    from assms(2) True have "clean_state w ?d = Inr df"
      unfolding try_cases [OF assms(1)] by (simp add: Let_def)
    then obtain j where "positions (columns ?d) ''State'' = [j]" and "columns df = columns ?d"
      and "rows df = map (\<lambda>r. r[j := str_strip (astype_str w (cell_at r j))]) (rows ?d)"
      by (rule clean_state_Inr)
    with True show ?thesis by simp
  next
    case False
    let ?cols = "map strip (columns df0)"
    let ?d = "rename (df0\<lparr>columns := ?cols\<rparr>) (hd ?cols) ''State''"
    from assms(3) have ne: "?cols \<noteq> []" by simp
    from assms(2,3) False have "clean_state w ?d = Inr df"
      unfolding try_cases [OF assms(1)] by (simp add: Let_def)
    then obtain j where p: "positions (columns ?d) ''State'' = [j]" and c: "columns df = columns ?d"
      and r: "rows df = map (\<lambda>r. r[j := str_strip (astype_str w (cell_at r j))]) (rows ?d)"
      by (rule clean_state_Inr)
    have cd: "columns ?d = map (\<lambda>c. if c = hd ?cols then ''State'' else c) ?cols"
      by (simp add: rename_def)
    from renamed_first [OF ne] p cd
    have "j = 0" and "columns ?d = ''State'' # tl ?cols" by simp_all
    with False p c r show ?thesis by (simp add: rename_def)
  qed
qed

theorem extract_table_data_try_normalizes_witness:
  "read_html (world_tables [frame_region]) [] = Inr [frame_region]
   \<and> extract_table_data_try (world_tables [frame_region]) [] = Inr fuel_tx
   \<and> columns frame_region = ['' Region '', ''Regular '']
   \<and> columns fuel_tx = [''State'', ''Regular'']
   \<and> positions (columns fuel_tx) ''State'' = [0]
   \<and> extract_table_data (world_tables [frame_region]) [] = (Inr fuel_tx, [])"
proof -
  let ?w = "world_tables [frame_region]"
  have h1: "read_html ?w [] = Inr [frame_region]" by (simp add: world_tables_def)
  have h2: "extract_table_data_try ?w [] = Inr fuel_tx" by code_simp
  have h3: "columns frame_region \<noteq> []" by code_simp
  have h4: "columns frame_region = ['' Region '', ''Regular '']" by code_simp
  have h5: "columns fuel_tx = [''State'', ''Regular'']" by code_simp
  have h6: "''State'' \<notin> set (map strip (columns frame_region))" by code_simp
  note t = extract_table_data_try_normalizes [OF h1 h2 h3]
  from t h6 have "positions (columns fuel_tx) ''State'' = [0]" by auto
  moreover from t have "extract_table_data ?w [] = (Inr fuel_tx, [])" by blast
  ultimately show ?thesis using h1 h2 h4 h5 by blast
qed

end
